theory Spec2Isabelle
  imports Main "HOL-Library.Sublist"
begin

section \<open>The lpass credential helper (lastpass/lastpass_linux.go)\<close>

text \<open>
  Go strings are byte sequences and are modelled as \<^typ>\<open>string\<close>. A Go \<open>error\<close>
  value is \<open>nil\<close> or carries a message: \<^typ>\<open>string option\<close>. A Go function with
  several results returns a tuple, so that the value returned next to an error is
  visible, as it is in the source.
\<close>

type_synonym error = "string option"

subsection \<open>Standard library functions the helper calls\<close>

text \<open>\<open>strings.TrimRight(s, cutset)\<close>: \<open>s\<close> without its trailing bytes that are in \<open>cutset\<close>.\<close>

definition TrimRight :: "string \<Rightarrow> string \<Rightarrow> string" where
  "TrimRight s cutset = rev (dropWhile (\<lambda>c. c \<in> set cutset) (rev s))"

text \<open>
  \<open>strings.Split(s, sep)\<close>: the substrings between the occurrences of \<open>sep\<close>, found
  left to right. \<open>cur\<close> is the piece read since the last separator. An empty
  separator explodes the string (byte by byte here).
\<close>

function Split_from :: "string \<Rightarrow> string \<Rightarrow> string \<Rightarrow> string list" where
  "Split_from sep cur [] = [cur]"
| "Split_from sep cur (c # cs) =
     (if sep \<noteq> [] \<and> prefix sep (c # cs)
      then cur # Split_from sep [] (drop (length sep) (c # cs))
      else Split_from sep (cur @ [c]) cs)"
  by pat_completeness auto
termination
  by (relation "measure (\<lambda>(sep, cur, s). length s)") auto

definition Split :: "string \<Rightarrow> string \<Rightarrow> string list" where
  "Split s sep = (if sep = [] then map (\<lambda>c. [c]) s else Split_from sep [] s)"

text \<open>
  \<open>path.Clean\<close>. \<open>out\<close> is the written part of the output buffer (its length is the
  source's \<open>out.w\<close>), \<open>p\<close> is the unread rest of the path (\<open>path[r:]\<close>).
  \<open>backtrack\<close> is the inner loop of the \<open>..\<close> case, run after \<open>out.w--\<close>.
\<close>

fun backtrack :: "string \<Rightarrow> nat \<Rightarrow> nat \<Rightarrow> nat" where
  "backtrack out dotdot 0 = 0"
| "backtrack out dotdot (Suc w) =
     (if Suc w > dotdot \<and> out ! Suc w \<noteq> CHR ''/'' then backtrack out dotdot w else Suc w)"

function Clean_loop :: "bool \<Rightarrow> string \<Rightarrow> nat \<Rightarrow> string \<Rightarrow> string" where
  "Clean_loop rooted out dotdot [] = out"
| "Clean_loop rooted out dotdot (c # cs) =
     (if c = CHR ''/'' then Clean_loop rooted out dotdot cs
      else if c = CHR ''.'' \<and> (cs = [] \<or> hd cs = CHR ''/'') then Clean_loop rooted out dotdot cs
      else if c = CHR ''.'' \<and> cs \<noteq> [] \<and> hd cs = CHR ''.''
              \<and> (tl cs = [] \<or> hd (tl cs) = CHR ''/'') then
        (if length out > dotdot
         then Clean_loop rooted (take (backtrack out dotdot (length out - 1)) out) dotdot (tl cs)
         else if \<not> rooted
         then (let out' = (if out \<noteq> [] then out @ ''/'' else out) @ ''..''
               in Clean_loop rooted out' (length out') (tl cs))
         else Clean_loop rooted out dotdot (tl cs))
      else
        (let out' = (if rooted \<and> length out \<noteq> 1 \<or> \<not> rooted \<and> length out \<noteq> 0
                     then out @ ''/'' else out)
         in Clean_loop rooted (out' @ takeWhile (\<lambda>x. x \<noteq> CHR ''/'') (c # cs)) dotdot
              (dropWhile (\<lambda>x. x \<noteq> CHR ''/'') (c # cs))))"
  by pat_completeness auto
termination
proof (relation "measure (\<lambda>(rooted, out, dotdot, p). length p)", goal_cases)
  case (7 rooted out dotdot c cs x)
  have "length (dropWhile (\<lambda>x. x \<noteq> CHR ''/'') cs) \<le> length cs"
    by (rule length_dropWhile_le)
  with 7 show ?case by simp
qed auto

definition Clean :: "string \<Rightarrow> string" where
  "Clean path =
     (if path = [] then ''.''
      else
        (let rooted = (hd path = CHR ''/'');
             out = Clean_loop rooted (if rooted then ''/'' else []) (if rooted then 1 else 0)
                     (if rooted then tl path else path)
         in if out = [] then ''.'' else out))"

text \<open>\<open>path.Join\<close>: the elements joined by slashes, from the first non-empty one on, then cleaned.\<close>

fun Join_buf :: "string \<Rightarrow> string list \<Rightarrow> string" where
  "Join_buf buf [] = buf"
| "Join_buf buf (e # es) =
     Join_buf (if buf \<noteq> [] \<or> e \<noteq> []
               then (if buf \<noteq> [] then buf @ ''/'' else buf) @ e
               else buf) es"

definition path_Join :: "string list \<Rightarrow> string" where
  "path_Join elem = (if concat elem = [] then [] else Clean (Join_buf [] elem))"

text \<open>
  \<open>bufio.Reader.ReadString(delim)\<close> on a fresh reader over standard input. Each element
  of the input is what one read of the file delivers; no element left is end of file.
  The reader returns the bytes up to and including the first delimiter, or at end of
  file the bytes read so far together with the error. What the reader has buffered
  after the delimiter goes away with the reader.
\<close>

fun ReadString :: "char \<Rightarrow> string \<Rightarrow> string list \<Rightarrow> (string \<times> error) \<times> string list" where
  "ReadString delim acc [] = ((acc, Some ''EOF''), [])"
| "ReadString delim acc (chunk # rest) =
     (if delim \<in> set chunk
      then ((acc @ takeWhile (\<lambda>c. c \<noteq> delim) chunk @ [delim], None), rest)
      else ReadString delim (acc @ chunk) rest)"

subsection \<open>Data\<close>

text \<open>
  One run of the \<open>lpass\<close> executable (\<open>exec.Command("lpass", args...)\<close> followed by
  \<open>cmd.Run()\<close>): the standard input given to it, if any, and its arguments.
\<close>

datatype invocation = Invocation (inv_stdin: "string option") (inv_args: "string list")

text \<open>What \<open>cmd.Run()\<close> leaves: its error (non-zero exit or failure to start) and the two buffers.\<close>

record outcome =
  run_err :: error
  out_stdout :: string
  out_stderr :: string

text \<open>
  The surroundings of the helper: \<open>net/url\<close>'s \<open>Parse\<close> and \<open>Hostname\<close>, which the
  repository does not hold, and the \<open>lpass\<close> tool, whose answer to an invocation may
  depend on every invocation made before.
\<close>

record 'u env =
  url_Parse :: "string \<Rightarrow> string + 'u"
  url_Hostname :: "'u \<Rightarrow> string"
  lpass :: "invocation list \<Rightarrow> invocation \<Rightarrow> outcome"

text \<open>
  The process state: the package variable \<open>lpassInitialized\<close>, the invocations of
  \<open>lpass\<close> made so far, what is left to read on standard input and what was printed.
\<close>

record state =
  lpassInitialized :: bool
  trace :: "invocation list"
  os_Stdin :: "string list"
  os_Stdout :: string

record Credentials =
  ServerURL :: string
  Username :: string
  Secret :: string

definition LASTPASS_FOLDER :: string where
  "LASTPASS_FOLDER = ''Docker Credentials''"

subsection \<open>The process runner and the session guard\<close>

definition cmd_Run :: "'u env \<Rightarrow> invocation \<Rightarrow> state \<Rightarrow> outcome \<times> state" where
  "cmd_Run env cmd s = (lpass env (trace s) cmd, s\<lparr>trace := trace s @ [cmd]\<rparr>)"

definition runLastPassHelper ::
  "'u env \<Rightarrow> string \<Rightarrow> string list \<Rightarrow> state \<Rightarrow> (string \<times> error) \<times> state" where
  "runLastPassHelper env stdinContent args s =
     (let (r, s') = cmd_Run env (Invocation (Some stdinContent) args) s
      in case run_err r of
           Some err \<Rightarrow> (([], Some (err @ '': '' @ out_stderr r)), s')
         | None \<Rightarrow> ((TrimRight (out_stdout r) ''\<newline>'', None), s'))"

text \<open>The body of \<open>if err != nil\<close> in \<open>checkInitialized\<close>: prompt, read the username, log in.\<close>

definition login_block :: "'u env \<Rightarrow> state \<Rightarrow> error \<times> state" where
  "login_block env s =
     (let s1 = s\<lparr>os_Stdout := os_Stdout s @ ''Enter your LastPass username: ''\<rparr>;
          ((lpassUsername, _), rest) = ReadString CHR ''\<newline>'' [] (os_Stdin s1);
          s2 = s1\<lparr>os_Stdin := rest\<rparr>;
          (r, s3) = cmd_Run env (Invocation None [''login'', lpassUsername]) s2
      in case run_err r of
           Some err \<Rightarrow>
             (Some (''Failed to log into `lpass`; try running `lpass login '' @ lpassUsername
                    @ ''` yourself.''), s3)
         | None \<Rightarrow> (None, s3))"

definition checkInitialized :: "'u env \<Rightarrow> state \<Rightarrow> error \<times> state" where
  "checkInitialized env s =
     (if lpassInitialized s then (None, s)
      else
        (let ((_, err), s1) = runLastPassHelper env [] [''status'', ''--quiet''] s;
             (lerr, s2) = (if err \<noteq> None then login_block env s1 else (None, s1))
         in if lerr \<noteq> None then (lerr, s2)
            else
              (let ((_, err2), s3) = runLastPassHelper env [] [''status'', ''--quiet''] s2
               in case err2 of
                    Some e \<Rightarrow> (Some (''lpass not initialized: '' @ e), s3)
                  | None \<Rightarrow> (None, s3\<lparr>lpassInitialized := True\<rparr>))))"

definition runLastPass ::
  "'u env \<Rightarrow> string \<Rightarrow> string list \<Rightarrow> state \<Rightarrow> (string \<times> error) \<times> state" where
  "runLastPass env stdinContent args s =
     (case checkInitialized env s of
        (Some err, s') \<Rightarrow> (([], Some err), s')
      | (None, s') \<Rightarrow> runLastPassHelper env stdinContent args s')"

subsection \<open>The credential store\<close>

definition domainInURL :: "'u env \<Rightarrow> string \<Rightarrow> string \<times> error" where
  "domainInURL env serverURL =
     (case url_Parse env serverURL of
        Inl err \<Rightarrow> ([], Some err)
      | Inr u \<Rightarrow> (url_Hostname env u, None))"

definition Get :: "'u env \<Rightarrow> string \<Rightarrow> state \<Rightarrow> (string \<times> string \<times> error) \<times> state" where
  "Get env serverURL s =
     (if serverURL = [] then (([], [], Some ''missing server url''), s)
      else
        (case domainInURL env serverURL of
           (_, Some err) \<Rightarrow> (([], [], Some err), s)
         | (domain, None) \<Rightarrow>
             (case runLastPass env [] [''show'', ''--user'', path_Join [LASTPASS_FOLDER, domain]] s of
                ((_, Some err), s1) \<Rightarrow> (([], [], Some err), s1)
              | ((username, None), s1) \<Rightarrow>
                  (case runLastPass env [] [''show'', ''--pass'', path_Join [LASTPASS_FOLDER, domain]] s1 of
                     ((_, Some err), s2) \<Rightarrow> (([], [], Some err), s2)
                   | ((secret, None), s2) \<Rightarrow> ((username, secret, None), s2)))))"

definition Add :: "'u env \<Rightarrow> Credentials option \<Rightarrow> state \<Rightarrow> error \<times> state" where
  "Add env creds s =
     (case creds of
        None \<Rightarrow> (Some ''missing credentials'', s)
      | Some c \<Rightarrow>
          (case domainInURL env (ServerURL c) of
             (_, Some err) \<Rightarrow> (Some err, s)
           | (domain, None) \<Rightarrow>
               (let details = ''URL: '' @ ServerURL c @ ''\<newline>Username: '' @ Username c
                              @ ''\<newline>Password: '' @ Secret c @ ''\<newline>'';
                    ((_, _, err), s1) = Get env (ServerURL c) s
                in if err \<noteq> None
                   then (let ((_, err'), s2) =
                               runLastPass env details
                                 [''edit'', ''--non-interactive'', path_Join [LASTPASS_FOLDER, domain]] s1
                         in (err', s2))
                   else (let ((_, err'), s2) =
                               runLastPass env details
                                 [''add'', ''--non-interactive'', path_Join [LASTPASS_FOLDER, domain]] s1
                         in (err', s2)))))"

definition Delete :: "'u env \<Rightarrow> string \<Rightarrow> state \<Rightarrow> error \<times> state" where
  "Delete env serverURL s =
     (if serverURL = [] then (Some ''missing server url'', s)
      else
        (case domainInURL env serverURL of
           (_, Some err) \<Rightarrow> (Some err, s)
         | (domain, None) \<Rightarrow>
             (let ((_, err), s1) = runLastPass env [] [''rm'', path_Join [LASTPASS_FOLDER, domain]] s
              in (err, s1))))"

text \<open>The \<open>for _, entry := range entries\<close> loop of \<open>List\<close>; a Go map that is \<open>nil\<close> is \<open>None\<close>.\<close>

fun List_loop ::
  "'u env \<Rightarrow> string list \<Rightarrow> (string \<rightharpoonup> string) \<Rightarrow> state
     \<Rightarrow> ((string \<rightharpoonup> string) option \<times> error) \<times> state" where
  "List_loop env [] resp s = ((Some resp, None), s)"
| "List_loop env (entryID # entries) resp s =
     (case runLastPass env [] [''show'', ''--url'', entryID] s of
        ((_, Some err), s1) \<Rightarrow> ((None, Some err), s1)
      | ((serverURL, None), s1) \<Rightarrow>
          (case runLastPass env [] [''show'', ''--user'', entryID] s1 of
             ((_, Some err), s2) \<Rightarrow> ((None, Some err), s2)
           | ((username, None), s2) \<Rightarrow>
               List_loop env entries (resp(serverURL \<mapsto> username)) s2))"

definition List ::
  "'u env \<Rightarrow> state \<Rightarrow> ((string \<rightharpoonup> string) option \<times> error) \<times> state" where
  "List env s =
     (case runLastPass env [] [''ls'', ''--format'', ''%ai'', LASTPASS_FOLDER] s of
        ((_, Some err), s1) \<Rightarrow> ((None, Some err), s1)
      | ((output, None), s1) \<Rightarrow> List_loop env (Split output ''\<newline>'') Map.empty s1)"

subsection \<open>Sample surroundings\<close>

text \<open>
  What \<open>url.Parse\<close> and \<open>Hostname\<close> give on the server addresses of the examples
  below; the parsed address is represented by its host name.
\<close>

definition sample_urls :: "(string \<times> (string + string)) list" where
  "sample_urls =
     [(''https://example.com/login'', Inr ''example.com''),
      (''https://example.com'', Inr ''example.com''),
      (''https://registry.test:5000/v1/'', Inr ''registry.test''),
      (''https://.'', Inr ''.''),
      (''docker.io'', Inr []),
      (''%zz'', Inl (''parse '' @ [CHR 0x22] @ ''%zz'' @ [CHR 0x22] @ '': invalid URL escape ''
                     @ [CHR 0x22] @ ''%zz'' @ [CHR 0x22]))]"

definition sample_Parse :: "string \<Rightarrow> string + string" where
  "sample_Parse u = (case map_of sample_urls u of Some r \<Rightarrow> r | None \<Rightarrow> Inl ''not a sample'')"

definition ok :: "string \<Rightarrow> outcome" where
  "ok out = \<lparr>run_err = None, out_stdout = out, out_stderr = []\<rparr>"

definition failure :: "string \<Rightarrow> outcome" where
  "failure msg = \<lparr>run_err = Some ''exit status 1'', out_stdout = [], out_stderr = msg\<rparr>"

text \<open>
  A tool that answers by its arguments alone, from a table, and fails on anything
  else; and one whose session opens with the first \<open>login\<close>.
\<close>

definition table_lpass :: "(string list \<times> outcome) list \<Rightarrow> invocation list \<Rightarrow> invocation \<Rightarrow> outcome" where
  "table_lpass tbl hist cmd =
     (case map_of tbl (inv_args cmd) of
        Some r \<Rightarrow> r
      | None \<Rightarrow> failure ''Error: Could not find specified account(s).\<newline>'')"

definition login_lpass :: "bool \<Rightarrow> invocation list \<Rightarrow> invocation \<Rightarrow> outcome" where
  "login_lpass accept hist cmd =
     (if take 1 (inv_args cmd) = [''login'']
      then (if accept then ok [] else failure [])
      else if accept \<and> (\<exists>c \<in> set hist. take 1 (inv_args c) = [''login''])
      then ok []
      else failure ''Error: Could not find decryption key. Perhaps you need to login with `lpass login`.\<newline>'')"

definition sample_env :: "(invocation list \<Rightarrow> invocation \<Rightarrow> outcome) \<Rightarrow> string env" where
  "sample_env tool = \<lparr>url_Parse = sample_Parse, url_Hostname = (\<lambda>h. h), lpass = tool\<rparr>"

definition fresh :: "string list \<Rightarrow> state" where
  "fresh input = \<lparr>lpassInitialized = False, trace = [], os_Stdin = input, os_Stdout = []\<rparr>"

definition logged_in :: state where
  "logged_in = \<lparr>lpassInitialized = True, trace = [], os_Stdin = [], os_Stdout = []\<rparr>"

text \<open>The invocations and the message of the session guard, as the statements below name them.\<close>

definition status_probe :: invocation where
  "status_probe = Invocation (Some []) [''status'', ''--quiet'']"

definition login_failed :: "string \<Rightarrow> string" where
  "login_failed user = ''Failed to log into `lpass`; try running `lpass login '' @ user @ ''` yourself.''"


text \<open>
  Notions for statements about runs: the answers of the tool to a sequence of
  invocations made one after the other from a given history, what the process
  runner makes of an answer, and the two invocations \<open>List\<close> makes for an entry.
\<close>

fun replay :: "'u env \<Rightarrow> invocation list \<Rightarrow> invocation list \<Rightarrow> outcome list" where
  "replay env hist [] = []"
| "replay env hist (c # cs) = lpass env hist c # replay env (hist @ [c]) cs"

definition runner_error :: "outcome \<Rightarrow> error" where
  "runner_error r = (case run_err r of None \<Rightarrow> None | Some err \<Rightarrow> Some (err @ '': '' @ out_stderr r))"

definition runner_output :: "outcome \<Rightarrow> string" where
  "runner_output r = TrimRight (out_stdout r) ''\<newline>''"

definition show_cmds :: "string \<Rightarrow> invocation list" where
  "show_cmds entryID =
     [Invocation (Some []) [''show'', ''--url'', entryID],
      Invocation (Some []) [''show'', ''--user'', entryID]]"

fun pairs_of :: "'a list \<Rightarrow> ('a \<times> 'a) list" where
  "pairs_of (x # y # rest) = (x, y) # pairs_of rest"
| "pairs_of _ = []"

text \<open>Three stores for the examples of \<open>List\<close>.\<close>

definition shared_url_store :: "(string list \<times> outcome) list" where
  "shared_url_store =
     [([''ls'', ''--format'', ''%ai'', ''Docker Credentials''], ok ''11\<newline>12\<newline>''),
      ([''show'', ''--url'', ''11''], ok ''https://x.test\<newline>''),
      ([''show'', ''--user'', ''11''], ok ''alice\<newline>''),
      ([''show'', ''--url'', ''12''], ok ''https://x.test\<newline>''),
      ([''show'', ''--user'', ''12''], ok ''bob\<newline>'')]"

definition broken_entry_store :: "(string list \<times> outcome) list" where
  "broken_entry_store =
     [([''ls'', ''--format'', ''%ai'', ''Docker Credentials''], ok ''11\<newline>12\<newline>''),
      ([''show'', ''--url'', ''11''], ok ''https://x.test\<newline>''),
      ([''show'', ''--user'', ''11''], ok ''alice\<newline>''),
      ([''show'', ''--url'', ''12''], ok ''https://y.test\<newline>'')]"

definition empty_store :: "(string list \<times> outcome) list" where
  "empty_store = [([''ls'', ''--format'', ''%ai'', ''Docker Credentials''], ok [])]"

definition blank_line_store :: "(string list \<times> outcome) list" where
  "blank_line_store =
     [([''ls'', ''--format'', ''%ai'', ''Docker Credentials''], ok ''\<newline>11\<newline>''),
      ([''show'', ''--url'', ''11''], ok ''https://x.test\<newline>''),
      ([''show'', ''--user'', ''11''], ok ''alice\<newline>''),
      ([''show'', ''--url'', []], ok ''https://z.test\<newline>''),
      ([''show'', ''--user'', []], ok ''zoe\<newline>'')]"

text \<open>
  A status probe that succeeded among the invocations \<open>new\<close> made after \<open>hist\<close>; and
  the relation between the states before and after a step: the trace only grows, a
  set flag stays set, and a flag that is set afterwards was set before or a status
  probe succeeded in between.
\<close>

definition probed_ok :: "'u env \<Rightarrow> invocation list \<Rightarrow> invocation list \<Rightarrow> bool" where
  "probed_ok env hist new =
     (\<exists>(c, r) \<in> set (zip new (replay env hist new)). c = status_probe \<and> run_err r = None)"

definition flag_by_probe :: "'u env \<Rightarrow> state \<Rightarrow> state \<Rightarrow> bool" where
  "flag_by_probe env s s' =
     (prefix (trace s) (trace s')
      \<and> (lpassInitialized s \<longrightarrow> lpassInitialized s')
      \<and> (lpassInitialized s' \<longrightarrow>
           lpassInitialized s \<or> probed_ok env (trace s) (drop (length (trace s)) (trace s'))))"

definition unreadable_store :: "(string list \<times> outcome) list" where
  "unreadable_store =
     [([''ls'', ''--format'', ''%ai'', ''Docker Credentials''], ok ''11\<newline>12\<newline>'')]"

lemma TrimRight_decomp: "\<exists>k. s = TrimRight s [c] @ replicate k c"
proof -
  let ?t = "takeWhile (\<lambda>x. x = c) (rev s)"
  have "?t = replicate (length ?t) c"
    by (metis (mono_tags, lifting) replicate_length_same set_takeWhileD)
  moreover have "rev s = ?t @ dropWhile (\<lambda>x. x = c) (rev s)"
    by simp
  ultimately have "rev s = replicate (length ?t) c @ dropWhile (\<lambda>x. x = c) (rev s)"
    by simp
  then have "s = rev (dropWhile (\<lambda>x. x = c) (rev s)) @ replicate (length ?t) c"
    by (metis rev_append rev_replicate rev_rev_ident)
  then show ?thesis by (auto simp: TrimRight_def)
qed

lemma TrimRight_last: "TrimRight s [c] \<noteq> [] \<Longrightarrow> last (TrimRight s [c]) \<noteq> c"
  unfolding TrimRight_def
  by (metis (mono_tags, lifting) hd_dropWhile last_rev list.set_intros(1) rev_is_Nil_conv)

text \<open>
  C2. \<open>Get\<close> and \<open>Delete\<close> on the empty server address and \<open>Add\<close> on a nil
  credential return their error and leave the state as it was: nothing is added to the
  trace, so no subprocess was run.
\<close>

theorem missing_argument_no_invocation:
  "Get env [] s = (([], [], Some ''missing server url''), s)
   \<and> Delete env [] s = (Some ''missing server url'', s)
   \<and> Add env None s = (Some ''missing credentials'', s)"
  by (simp add: Get_def Delete_def Add_def)

text \<open>
  C6. When the run of the tool ends with an error, the process runner returns the empty
  string and one message made of the error, a colon and the captured standard error.
\<close>

theorem runLastPassHelper_failure:
  assumes "run_err (lpass env (trace s) (Invocation (Some stdinContent) args)) = Some err"
  shows "runLastPassHelper env stdinContent args s =
           (([], Some (err @ '': '' @ out_stderr (lpass env (trace s) (Invocation (Some stdinContent) args)))),
            s\<lparr>trace := trace s @ [Invocation (Some stdinContent) args]\<rparr>)"
  using assms by (simp add: runLastPassHelper_def cmd_Run_def)

theorem runLastPassHelper_failure_witness:
  "run_err (lpass (sample_env (table_lpass [])) (trace logged_in)
             (Invocation (Some []) [''show'', ''--user'', ''Docker Credentials/example.com''])) = Some ''exit status 1''
   \<and> fst (runLastPassHelper (sample_env (table_lpass [])) [] [''show'', ''--user'', ''Docker Credentials/example.com''] logged_in)
       = ([], Some ''exit status 1: Error: Could not find specified account(s).\<newline>'')"
  using runLastPassHelper_failure [of "sample_env (table_lpass [])" logged_in "[]"
      "[''show'', ''--user'', ''Docker Credentials/example.com'']" "''exit status 1''"]
  by (simp add: sample_env_def table_lpass_def failure_def logged_in_def)

text \<open>
  A tool that prints \<open>alice\<close> and two newlines: the runner returns \<open>alice\<close>, not
  \<open>alice\<close> and one newline. (Counterexample to C3 as stated.)
\<close>

theorem runLastPassHelper_strips_two_newlines:
  "out_stdout (lpass (sample_env (table_lpass [([''show'', ''--user'', ''x''], ok ''alice\<newline>\<newline>'')])) []
                 (Invocation (Some []) [''show'', ''--user'', ''x''])) = ''alice\<newline>\<newline>''
   \<and> fst (runLastPassHelper (sample_env (table_lpass [([''show'', ''--user'', ''x''], ok ''alice\<newline>\<newline>'')]))
             [] [''show'', ''--user'', ''x''] logged_in) = (''alice'', None)
   \<and> ''alice'' \<noteq> ''alice\<newline>''"
  by (simp add: runLastPassHelper_def cmd_Run_def sample_env_def table_lpass_def ok_def
      logged_in_def TrimRight_def)

text \<open>
  C3, amended. When the run of the tool succeeds, the process runner returns no error and
  the captured standard output without all of its trailing newlines: the output is the
  returned string followed by newlines only, and the returned string does not end in
  a newline.
\<close>

theorem runLastPassHelper_success:
  assumes "run_err (lpass env (trace s) (Invocation (Some stdinContent) args)) = None"
  shows "\<exists>out k. runLastPassHelper env stdinContent args s =
                   ((out, None), s\<lparr>trace := trace s @ [Invocation (Some stdinContent) args]\<rparr>)
               \<and> out_stdout (lpass env (trace s) (Invocation (Some stdinContent) args))
                   = out @ replicate k CHR ''\<newline>''
               \<and> (out = [] \<or> last out \<noteq> CHR ''\<newline>'')"
proof -
  let ?so = "out_stdout (lpass env (trace s) (Invocation (Some stdinContent) args))"
  obtain k where k: "?so = TrimRight ?so ''\<newline>'' @ replicate k CHR ''\<newline>''"
    using TrimRight_decomp by blast
  have "TrimRight ?so ''\<newline>'' = [] \<or> last (TrimRight ?so ''\<newline>'') \<noteq> CHR ''\<newline>''"
    using TrimRight_last by blast
  moreover have "runLastPassHelper env stdinContent args s =
      ((TrimRight ?so ''\<newline>'', None), s\<lparr>trace := trace s @ [Invocation (Some stdinContent) args]\<rparr>)"
    using assms by (simp add: runLastPassHelper_def cmd_Run_def)
  ultimately show ?thesis using k by blast
qed

theorem runLastPassHelper_success_witness:
  "run_err (lpass (sample_env (table_lpass [([''show'', ''--user'', ''x''], ok ''alice\<newline>\<newline>'')])) (trace logged_in)
                 (Invocation (Some []) [''show'', ''--user'', ''x''])) = None
   \<and> (\<exists>out k. fst (runLastPassHelper (sample_env (table_lpass [([''show'', ''--user'', ''x''], ok ''alice\<newline>\<newline>'')]))
             [] [''show'', ''--user'', ''x''] logged_in) = (out, None)
        \<and> ''alice\<newline>\<newline>'' = out @ replicate k CHR ''\<newline>''
        \<and> (out = [] \<or> last out \<noteq> CHR ''\<newline>''))"
proof -
  let ?E = "sample_env (table_lpass [([''show'', ''--user'', ''x''], ok ''alice\<newline>\<newline>'')])"
  have h: "run_err (lpass ?E (trace logged_in) (Invocation (Some []) [''show'', ''--user'', ''x''])) = None"
    by (simp add: sample_env_def table_lpass_def ok_def)
  have so: "out_stdout (lpass ?E (trace logged_in) (Invocation (Some []) [''show'', ''--user'', ''x''])) = ''alice\<newline>\<newline>''"
    by (simp add: sample_env_def table_lpass_def ok_def)
  from runLastPassHelper_success [OF h] obtain out k where
    "runLastPassHelper ?E [] [''show'', ''--user'', ''x''] logged_in =
       ((out, None), logged_in\<lparr>trace := trace logged_in @ [Invocation (Some []) [''show'', ''--user'', ''x'']]\<rparr>)"
    "out_stdout (lpass ?E (trace logged_in) (Invocation (Some []) [''show'', ''--user'', ''x''])) = out @ replicate k CHR ''\<newline>''"
    "out = [] \<or> last out \<noteq> CHR ''\<newline>''"
    by blast
  then show ?thesis using h so by auto
qed


lemma Clean_loop_plain:
  assumes "CHR ''/'' \<notin> set h" "h \<noteq> []" "h \<noteq> ''.''" "h \<noteq> ''..''" "out \<noteq> []"
  shows "Clean_loop False out d h = out @ ''/'' @ h"
proof -
  obtain c cs where h: "h = c # cs" using assms(2) by (cases h) auto
  have tw: "takeWhile (\<lambda>x. x \<noteq> CHR ''/'') (c # cs) = c # cs"
    using assms(1) h by (auto simp: takeWhile_eq_all_conv)
  have dw: "dropWhile (\<lambda>x. x \<noteq> CHR ''/'') (c # cs) = []"
    using assms(1) h by (auto simp: dropWhile_eq_Nil_conv)
  have c1: "c \<noteq> CHR ''/''" using assms(1) h by auto
  have c2: "\<not> (c = CHR ''.'' \<and> (cs = [] \<or> hd cs = CHR ''/''))"
    using assms h by (cases cs) auto
  have c3: "\<not> (c = CHR ''.'' \<and> cs \<noteq> [] \<and> hd cs = CHR ''.'' \<and> (tl cs = [] \<or> hd (tl cs) = CHR ''/''))"
    using assms h by (cases cs; cases "tl cs") auto
  have "Clean_loop False out d (c # cs) =
          (let out' = (if False \<and> length out \<noteq> 1 \<or> \<not> False \<and> length out \<noteq> 0
                       then out @ ''/'' else out)
           in Clean_loop False (out' @ takeWhile (\<lambda>x. x \<noteq> CHR ''/'') (c # cs)) d
                (dropWhile (\<lambda>x. x \<noteq> CHR ''/'') (c # cs)))"
    by (subst Clean_loop.simps(2)) (simp only: c1 c2 c3 if_False)
  also have "\<dots> = Clean_loop False ((out @ ''/'') @ c # cs) d []"
    unfolding tw dw using assms(5) by simp
  also have "\<dots> = out @ ''/'' @ c # cs"
    by simp
  finally show ?thesis unfolding h .
qed

lemma Clean_folder:
  "Clean_loop False [] 0 (''Docker Credentials/'' @ h) = Clean_loop False ''Docker Credentials'' 0 h"
  by simp

lemma Join_folder:
  "path_Join [LASTPASS_FOLDER, h] =
     (let out = Clean_loop False ''Docker Credentials'' 0 h in if out = [] then ''.'' else out)"
proof -
  have "Join_buf [] [''Docker Credentials'', h] = ''Docker Credentials/'' @ h"
    by simp
  moreover have "Clean (''Docker Credentials/'' @ h) =
      (let out = Clean_loop False [] 0 (''Docker Credentials/'' @ h) in if out = [] then ''.'' else out)"
    by (simp add: Clean_def del: Clean_loop.simps)
  ultimately show ?thesis
    unfolding path_Join_def LASTPASS_FOLDER_def Clean_folder by simp
qed

lemma backtrack_no_slash:
  "CHR ''/'' \<notin> set out \<Longrightarrow> w < length out \<Longrightarrow> backtrack out 0 w = 0"
  by (induction w) (auto dest: nth_mem)

lemma Join_folder_empty: "path_Join [LASTPASS_FOLDER, []] = ''Docker Credentials''"
  by (simp add: Join_folder)

lemma Join_folder_dot: "path_Join [LASTPASS_FOLDER, ''.''] = ''Docker Credentials''"
  by (simp add: Join_folder)

lemma Join_folder_dotdot: "path_Join [LASTPASS_FOLDER, ''..''] = ''.''"
proof -
  have "backtrack ''Docker Credentials'' 0 (length ''Docker Credentials'' - 1) = 0"
    by (rule backtrack_no_slash) simp_all
  then have "Clean_loop False ''Docker Credentials'' 0 ''..'' = []"
    by (subst Clean_loop.simps(2)) (simp del: backtrack.simps)
  then show ?thesis
    by (simp add: Join_folder)
qed

lemma Join_folder_plain:
  assumes "CHR ''/'' \<notin> set h" "h \<noteq> []" "h \<noteq> ''.''" "h \<noteq> ''..''"
  shows "path_Join [LASTPASS_FOLDER, h] = ''Docker Credentials/'' @ h"
proof -
  have "Clean_loop False ''Docker Credentials'' 0 h = ''Docker Credentials'' @ ''/'' @ h"
    using assms by (intro Clean_loop_plain) auto
  then show ?thesis
    by (simp add: Join_folder)
qed

lemma Join_folder_inj:
  assumes "CHR ''/'' \<notin> set h1" "CHR ''/'' \<notin> set h2" "h1 \<noteq> h2"
    and "\<not> (h1 = [] \<and> h2 = ''.'')" "\<not> (h1 = ''.'' \<and> h2 = [])"
  shows "path_Join [LASTPASS_FOLDER, h1] \<noteq> path_Join [LASTPASS_FOLDER, h2]"
proof -
  have v: "path_Join [LASTPASS_FOLDER, h] =
      (if h = [] \<or> h = ''.'' then ''Docker Credentials'' else if h = ''..'' then ''.''
       else ''Docker Credentials/'' @ h)" if "CHR ''/'' \<notin> set h" for h
  proof (cases "h = [] \<or> h = ''.'' \<or> h = ''..''")
    case True
    then show ?thesis
      using Join_folder_empty Join_folder_dot Join_folder_dotdot by auto
  next
    case False
    then show ?thesis
      using Join_folder_plain [OF that] by auto
  qed
  show ?thesis
    using assms(3,4,5) unfolding v [OF assms(1)] v [OF assms(2)]
    by (auto split: if_splits)
qed

lemma sample_env_sel:
  "url_Parse (sample_env tool) = sample_Parse"
  "url_Hostname (sample_env tool) = (\<lambda>h. h)"
  "lpass (sample_env tool) = tool"
  by (simp_all add: sample_env_def)

lemma domainInURL_ok:
  "url_Parse env u = Inr p \<Longrightarrow> domainInURL env u = (url_Hostname env p, None)"
  by (simp add: domainInURL_def)

lemma domainInURL_error:
  "url_Parse env u = Inl err \<Longrightarrow> domainInURL env u = ([], Some err)"
  by (simp add: domainInURL_def)

text \<open>
  The identifier as a function of the host. For addresses that parse: the same host gives the same entry identifier
  (the namespace joined with the host), and different hosts without a slash give
  different identifiers unless one is empty and the other is \<open>.\<close>. For an address
  that does not parse, the derivation returns the parser's error and no identifier,
  and \<open>Get\<close>, \<open>Delete\<close> and \<open>Add\<close> return that error without running the tool.
\<close>

lemma entry_identifier_join:
  "(url_Parse env u1 = Inr p1 \<and> url_Parse env u2 = Inr p2 \<longrightarrow>
      snd (domainInURL env u1) = None \<and> snd (domainInURL env u2) = None
      \<and> (url_Hostname env p1 = url_Hostname env p2 \<longrightarrow>
           path_Join [LASTPASS_FOLDER, fst (domainInURL env u1)]
             = path_Join [LASTPASS_FOLDER, fst (domainInURL env u2)])
      \<and> (url_Hostname env p1 \<noteq> url_Hostname env p2
           \<and> CHR ''/'' \<notin> set (url_Hostname env p1) \<and> CHR ''/'' \<notin> set (url_Hostname env p2)
           \<and> \<not> (url_Hostname env p1 = [] \<and> url_Hostname env p2 = ''.'')
           \<and> \<not> (url_Hostname env p1 = ''.'' \<and> url_Hostname env p2 = []) \<longrightarrow>
           path_Join [LASTPASS_FOLDER, fst (domainInURL env u1)]
             \<noteq> path_Join [LASTPASS_FOLDER, fst (domainInURL env u2)]))
   \<and> (url_Parse env u = Inl err \<longrightarrow>
        domainInURL env u = ([], Some err)
        \<and> (u \<noteq> [] \<longrightarrow> Get env u s = (([], [], Some err), s))
        \<and> (u \<noteq> [] \<longrightarrow> Delete env u s = (Some err, s))
        \<and> Add env (Some \<lparr>ServerURL = u, Username = name, Secret = secret\<rparr>) s = (Some err, s))"
proof (intro conjI impI)
  assume "url_Parse env u = Inl err"
  then have d: "domainInURL env u = ([], Some err)" by (rule domainInURL_error)
  show "domainInURL env u = ([], Some err)" by (rule d)
  show "Get env u s = (([], [], Some err), s)" if "u \<noteq> []"
    using that d by (simp add: Get_def)
  show "Delete env u s = (Some err, s)" if "u \<noteq> []"
    using that d by (simp add: Delete_def)
  show "Add env (Some \<lparr>ServerURL = u, Username = name, Secret = secret\<rparr>) s = (Some err, s)"
    using d by (simp add: Add_def)
next
  assume "url_Parse env u1 = Inr p1 \<and> url_Parse env u2 = Inr p2"
  then have d: "domainInURL env u1 = (url_Hostname env p1, None)"
    "domainInURL env u2 = (url_Hostname env p2, None)"
    by (simp_all add: domainInURL_ok)
  show "snd (domainInURL env u1) = None" "snd (domainInURL env u2) = None"
    using d by simp_all
  show "path_Join [LASTPASS_FOLDER, fst (domainInURL env u1)]
          = path_Join [LASTPASS_FOLDER, fst (domainInURL env u2)]"
    if "url_Hostname env p1 = url_Hostname env p2"
    using that d by simp
  show "path_Join [LASTPASS_FOLDER, fst (domainInURL env u1)]
          \<noteq> path_Join [LASTPASS_FOLDER, fst (domainInURL env u2)]"
    if "url_Hostname env p1 \<noteq> url_Hostname env p2
         \<and> CHR ''/'' \<notin> set (url_Hostname env p1) \<and> CHR ''/'' \<notin> set (url_Hostname env p2)
         \<and> \<not> (url_Hostname env p1 = [] \<and> url_Hostname env p2 = ''.'')
         \<and> \<not> (url_Hostname env p1 = ''.'' \<and> url_Hostname env p2 = [])"
    unfolding d fst_conv using that by (intro Join_folder_inj) blast+
qed

text \<open>
  C1 at a concrete input. With the entry stored (both \<open>show\<close> invocations of \<open>Get\<close>
  succeed) \<open>Add\<close> runs \<open>add\<close>; with no entry stored (\<open>Get\<close> fails) it runs \<open>edit\<close>.
\<close>

theorem Add_branches_on_Get:
  "trace (snd (Add (sample_env (table_lpass
              [([''show'', ''--user'', ''Docker Credentials/example.com''], ok ''alice\<newline>''),
               ([''show'', ''--pass'', ''Docker Credentials/example.com''], ok ''old\<newline>''),
               ([''add'', ''--non-interactive'', ''Docker Credentials/example.com''], ok []),
               ([''edit'', ''--non-interactive'', ''Docker Credentials/example.com''], ok [])]))
            (Some \<lparr>ServerURL = ''https://example.com/login'', Username = ''alice'', Secret = ''new''\<rparr>)
            logged_in))
     = [Invocation (Some []) [''show'', ''--user'', ''Docker Credentials/example.com''],
        Invocation (Some []) [''show'', ''--pass'', ''Docker Credentials/example.com''],
        Invocation (Some ''URL: https://example.com/login\<newline>Username: alice\<newline>Password: new\<newline>'')
          [''add'', ''--non-interactive'', ''Docker Credentials/example.com'']]
   \<and> trace (snd (Add (sample_env (table_lpass
              [([''add'', ''--non-interactive'', ''Docker Credentials/example.com''], ok []),
               ([''edit'', ''--non-interactive'', ''Docker Credentials/example.com''], ok [])]))
            (Some \<lparr>ServerURL = ''https://example.com/login'', Username = ''alice'', Secret = ''new''\<rparr>)
            logged_in))
     = [Invocation (Some []) [''show'', ''--user'', ''Docker Credentials/example.com''],
        Invocation (Some ''URL: https://example.com/login\<newline>Username: alice\<newline>Password: new\<newline>'')
          [''edit'', ''--non-interactive'', ''Docker Credentials/example.com'']]"
proof -
  have j: "path_Join [LASTPASS_FOLDER, ''example.com''] = ''Docker Credentials/example.com''"
    by (simp add: Join_folder_plain)
  have d: "domainInURL (sample_env tool) ''https://example.com/login'' = (''example.com'', None)" for tool
    by (simp add: domainInURL_def sample_env_def sample_Parse_def sample_urls_def)
  show ?thesis
    by (simp add: Add_def Get_def d j runLastPass_def checkInitialized_def runLastPassHelper_def
        cmd_Run_def logged_in_def sample_env_sel table_lpass_def ok_def failure_def TrimRight_def)
qed

lemma runLastPassHelper_state:
  "snd (runLastPassHelper env i a s) = s\<lparr>trace := trace s @ [Invocation (Some i) a]\<rparr>"
  by (simp add: runLastPassHelper_def cmd_Run_def split: option.splits)

lemma ReadString_line:
  "fst (ReadString d acc chunks) =
     (if d \<in> set (concat chunks)
      then (acc @ takeWhile (\<lambda>c. c \<noteq> d) (concat chunks) @ [d], None)
      else (acc @ concat chunks, Some ''EOF''))"
proof (induction chunks arbitrary: acc)
  case Nil
  show ?case by simp
next
  case (Cons chunk rest)
  show ?case
  proof (cases "d \<in> set chunk")
    case True
    then show ?thesis by (simp add: takeWhile_append1)
  next
    case False
    then have "takeWhile (\<lambda>c. c \<noteq> d) (chunk @ concat rest) = chunk @ takeWhile (\<lambda>c. c \<noteq> d) (concat rest)"
      by (intro takeWhile_append2) auto
    with False show ?thesis by (simp add: Cons.IH)
  qed
qed

lemma login_block_eq:
  "login_block env s =
     (let user = fst (fst (ReadString CHR ''\<newline>'' [] (os_Stdin s)));
          s3 = s\<lparr>trace := trace s @ [Invocation None [''login'', user]],
                 os_Stdin := snd (ReadString CHR ''\<newline>'' [] (os_Stdin s)),
                 os_Stdout := os_Stdout s @ ''Enter your LastPass username: ''\<rparr>
      in (if run_err (lpass env (trace s) (Invocation None [''login'', user])) = None
          then None else Some (login_failed user), s3))"
  by (simp add: login_block_def cmd_Run_def login_failed_def Let_def split: prod.splits option.splits)

lemma checkInitialized_done:
  "lpassInitialized s \<Longrightarrow> checkInitialized env s = (None, s)"
  by (simp add: checkInitialized_def)

text \<open>The three ways through \<open>checkInitialized\<close> when the flag is not set.\<close>

lemma checkInitialized_probe_ok:
  assumes "\<not> lpassInitialized s" "run_err (lpass env (trace s) status_probe) = None"
  shows "checkInitialized env s =
    (if run_err (lpass env (trace s @ [status_probe]) status_probe) = None
     then (None, s\<lparr>lpassInitialized := True, trace := trace s @ [status_probe, status_probe]\<rparr>)
     else (Some (''lpass not initialized: '' @ the (run_err (lpass env (trace s @ [status_probe]) status_probe))
                 @ '': '' @ out_stderr (lpass env (trace s @ [status_probe]) status_probe)),
           s\<lparr>trace := trace s @ [status_probe, status_probe]\<rparr>))"
  using assms
  by (auto simp: checkInitialized_def runLastPassHelper_def cmd_Run_def status_probe_def
      split: option.splits)

lemma first_probe_failed:
  assumes "run_err (lpass env (trace s) status_probe) \<noteq> None"
  shows "\<exists>e. runLastPassHelper env [] [''status'', ''--quiet''] s
               = (([], Some e), s\<lparr>trace := trace s @ [status_probe]\<rparr>)"
  using assms by (auto simp: runLastPassHelper_def cmd_Run_def status_probe_def)

lemma checkInitialized_login_failed:
  assumes "\<not> lpassInitialized s" "run_err (lpass env (trace s) status_probe) \<noteq> None"
    and "run_err (lpass env (trace s @ [status_probe])
           (Invocation None [''login'', fst (fst (ReadString CHR ''\<newline>'' [] (os_Stdin s)))])) \<noteq> None"
  shows "checkInitialized env s =
    (Some (login_failed (fst (fst (ReadString CHR ''\<newline>'' [] (os_Stdin s))))),
     s\<lparr>trace := trace s @ [status_probe,
            Invocation None [''login'', fst (fst (ReadString CHR ''\<newline>'' [] (os_Stdin s)))]],
       os_Stdin := snd (ReadString CHR ''\<newline>'' [] (os_Stdin s)),
       os_Stdout := os_Stdout s @ ''Enter your LastPass username: ''\<rparr>)"
proof -
  obtain e where h: "runLastPassHelper env [] [''status'', ''--quiet''] s
      = (([], Some e), s\<lparr>trace := trace s @ [status_probe]\<rparr>)"
    using first_probe_failed [OF assms(2)] by blast
  obtain e' where l: "run_err (lpass env (trace s @ [status_probe])
           (Invocation None [''login'', fst (fst (ReadString CHR ''\<newline>'' [] (os_Stdin s)))])) = Some e'"
    using assms(3) by auto
  show ?thesis
    using assms(1)
    by (simp add: checkInitialized_def h login_block_eq Let_def l)
qed

lemma checkInitialized_login_ok:
  assumes "\<not> lpassInitialized s" "run_err (lpass env (trace s) status_probe) \<noteq> None"
    and "run_err (lpass env (trace s @ [status_probe])
           (Invocation None [''login'', fst (fst (ReadString CHR ''\<newline>'' [] (os_Stdin s)))])) = None"
  shows "checkInitialized env s =
    (if run_err (lpass env (trace s @ [status_probe,
            Invocation None [''login'', fst (fst (ReadString CHR ''\<newline>'' [] (os_Stdin s)))]])
            status_probe) = None
     then (None,
           s\<lparr>lpassInitialized := True,
             trace := trace s @ [status_probe,
               Invocation None [''login'', fst (fst (ReadString CHR ''\<newline>'' [] (os_Stdin s)))],
               status_probe],
             os_Stdin := snd (ReadString CHR ''\<newline>'' [] (os_Stdin s)),
             os_Stdout := os_Stdout s @ ''Enter your LastPass username: ''\<rparr>)
     else (Some (''lpass not initialized: ''
                 @ the (run_err (lpass env (trace s @ [status_probe,
                     Invocation None [''login'', fst (fst (ReadString CHR ''\<newline>'' [] (os_Stdin s)))]])
                     status_probe))
                 @ '': ''
                 @ out_stderr (lpass env (trace s @ [status_probe,
                     Invocation None [''login'', fst (fst (ReadString CHR ''\<newline>'' [] (os_Stdin s)))]])
                     status_probe)),
           s\<lparr>trace := trace s @ [status_probe,
               Invocation None [''login'', fst (fst (ReadString CHR ''\<newline>'' [] (os_Stdin s)))],
               status_probe],
             os_Stdin := snd (ReadString CHR ''\<newline>'' [] (os_Stdin s)),
             os_Stdout := os_Stdout s @ ''Enter your LastPass username: ''\<rparr>))"
proof -
  let ?user = "fst (fst (ReadString CHR ''\<newline>'' [] (os_Stdin s)))"
  let ?s2 = "s\<lparr>trace := trace s @ [status_probe, Invocation None [''login'', ?user]],
                os_Stdin := snd (ReadString CHR ''\<newline>'' [] (os_Stdin s)),
                os_Stdout := os_Stdout s @ ''Enter your LastPass username: ''\<rparr>"
  obtain e where h: "runLastPassHelper env [] [''status'', ''--quiet''] s
      = (([], Some e), s\<lparr>trace := trace s @ [status_probe]\<rparr>)"
    using first_probe_failed [OF assms(2)] by blast
  have c: "checkInitialized env s =
      (case snd (fst (runLastPassHelper env [] [''status'', ''--quiet''] ?s2)) of
         Some e \<Rightarrow> (Some (''lpass not initialized: '' @ e),
                     snd (runLastPassHelper env [] [''status'', ''--quiet''] ?s2))
       | None \<Rightarrow> (None, snd (runLastPassHelper env [] [''status'', ''--quiet''] ?s2)
                           \<lparr>lpassInitialized := True\<rparr>))"
    using assms(1)
    by (simp add: checkInitialized_def h login_block_eq Let_def assms(3) case_prod_beta)
  show ?thesis
    unfolding c
    by (simp add: runLastPassHelper_def cmd_Run_def status_probe_def split: option.splits)
qed

lemma runLastPass_init:
  "lpassInitialized s \<Longrightarrow> runLastPass env i a s = runLastPassHelper env i a s"
  by (simp add: runLastPass_def checkInitialized_done)

lemma runLastPass_keeps_flag:
  "lpassInitialized s \<Longrightarrow> lpassInitialized (snd (runLastPass env i a s))"
  by (simp add: runLastPass_init runLastPassHelper_state)

lemma Get_keeps_flag:
  "lpassInitialized s \<Longrightarrow> lpassInitialized (snd (Get env u s))"
  by (simp add: Get_def case_prod_beta runLastPass_keeps_flag split: option.splits)

lemma Delete_keeps_flag:
  "lpassInitialized s \<Longrightarrow> lpassInitialized (snd (Delete env u s))"
  by (simp add: Delete_def Let_def case_prod_beta runLastPass_keeps_flag split: option.splits)

lemma Add_keeps_flag:
  "lpassInitialized s \<Longrightarrow> lpassInitialized (snd (Add env c s))"
  by (simp add: Add_def Let_def case_prod_beta runLastPass_keeps_flag Get_keeps_flag
      split: option.splits)

lemma List_loop_keeps_flag:
  "lpassInitialized s \<Longrightarrow> lpassInitialized (snd (List_loop env es resp s))"
  by (induction es arbitrary: resp s)
    (simp_all add: case_prod_beta runLastPass_keeps_flag split: option.splits)

lemma List_keeps_flag:
  "lpassInitialized s \<Longrightarrow> lpassInitialized (snd (List env s))"
  by (simp add: List_def case_prod_beta runLastPass_keeps_flag List_loop_keeps_flag
      split: option.splits)

lemma checkInitialized_starts_with_probe:
  assumes "\<not> lpassInitialized s"
  shows "\<exists>rest. trace (snd (checkInitialized env s)) = trace s @ status_probe # rest"
proof -
  let ?login = "Invocation None [''login'', fst (fst (ReadString CHR ''\<newline>'' [] (os_Stdin s)))]"
  consider (ok) "run_err (lpass env (trace s) status_probe) = None"
    | (bad) "run_err (lpass env (trace s) status_probe) \<noteq> None"
            "run_err (lpass env (trace s @ [status_probe]) ?login) \<noteq> None"
    | (login) "run_err (lpass env (trace s) status_probe) \<noteq> None"
            "run_err (lpass env (trace s @ [status_probe]) ?login) = None"
    by blast
  then show ?thesis
  proof cases
    case ok
    show ?thesis
      by (simp add: checkInitialized_probe_ok [OF assms ok])
  next
    case bad
    show ?thesis
      by (simp add: checkInitialized_login_failed [OF assms bad])
  next
    case login
    show ?thesis
      by (simp add: checkInitialized_login_ok [OF assms login])
  qed
qed

text \<open>
  The check alone. The flag is set only by a call of \<open>checkInitialized\<close> whose last invocation is a
  status probe that succeeded, and no operation that starts with the flag set ends
  with it unset; with the flag set, \<open>checkInitialized\<close> returns success and the state
  as it was (nothing run); when the probe fails and then the login fails, it returns
  the login error with the username read, the flag stays unset, and the next call
  starts with the status probe again.
\<close>

lemma checkInitialized_flag:
  "(lpassInitialized s \<longrightarrow>
      checkInitialized env s = (None, s)
      \<and> lpassInitialized (snd (runLastPass env i a s))
      \<and> lpassInitialized (snd (Get env u s)) \<and> lpassInitialized (snd (Add env c s))
      \<and> lpassInitialized (snd (Delete env u s)) \<and> lpassInitialized (snd (List env s)))
   \<and> (\<not> lpassInitialized s \<and> lpassInitialized (snd (checkInitialized env s)) \<longrightarrow>
        fst (checkInitialized env s) = None
        \<and> (\<exists>pre. trace (snd (checkInitialized env s)) = pre @ [status_probe]
                  \<and> run_err (lpass env pre status_probe) = None))
   \<and> (\<not> lpassInitialized s \<and> run_err (lpass env (trace s) status_probe) \<noteq> None
        \<and> run_err (lpass env (trace s @ [status_probe])
             (Invocation None [''login'', fst (fst (ReadString CHR ''\<newline>'' [] (os_Stdin s)))])) \<noteq> None \<longrightarrow>
        fst (checkInitialized env s)
          = Some (''Failed to log into `lpass`; try running `lpass login ''
                  @ fst (fst (ReadString CHR ''\<newline>'' [] (os_Stdin s))) @ ''` yourself.'')
        \<and> \<not> lpassInitialized (snd (checkInitialized env s))
        \<and> (\<exists>rest. trace (snd (checkInitialized env (snd (checkInitialized env s))))
                     = trace (snd (checkInitialized env s)) @ status_probe # rest))"
proof (intro conjI impI)
  assume f: "lpassInitialized s"
  show "checkInitialized env s = (None, s)" using f by (rule checkInitialized_done)
  show "lpassInitialized (snd (runLastPass env i a s))" using f by (rule runLastPass_keeps_flag)
  show "lpassInitialized (snd (Get env u s))" using f by (rule Get_keeps_flag)
  show "lpassInitialized (snd (Add env c s))" using f by (rule Add_keeps_flag)
  show "lpassInitialized (snd (Delete env u s))" using f by (rule Delete_keeps_flag)
  show "lpassInitialized (snd (List env s))" using f by (rule List_keeps_flag)
next
  assume a: "\<not> lpassInitialized s \<and> lpassInitialized (snd (checkInitialized env s))"
  then have nf: "\<not> lpassInitialized s" and fl: "lpassInitialized (snd (checkInitialized env s))"
    by simp_all
  let ?login = "Invocation None [''login'', fst (fst (ReadString CHR ''\<newline>'' [] (os_Stdin s)))]"
  have "fst (checkInitialized env s) = None
        \<and> (\<exists>pre. trace (snd (checkInitialized env s)) = pre @ [status_probe]
                  \<and> run_err (lpass env pre status_probe) = None)"
  proof (cases "run_err (lpass env (trace s) status_probe) = None")
    case True
    show ?thesis
    proof (cases "run_err (lpass env (trace s @ [status_probe]) status_probe) = None")
      case None2: True
      have "trace s @ [status_probe, status_probe] = (trace s @ [status_probe]) @ [status_probe]"
        by simp
      then show ?thesis
        using None2 checkInitialized_probe_ok [OF nf True] by auto
    next
      case False
      have "\<not> lpassInitialized (snd (checkInitialized env s))"
        by (simp add: checkInitialized_probe_ok [OF nf True] False nf)
      then show ?thesis
        using fl by simp
    qed
  next
    case False
    show ?thesis
    proof (cases "run_err (lpass env (trace s @ [status_probe]) ?login) = None")
      case True
      show ?thesis
      proof (cases "run_err (lpass env (trace s @ [status_probe, ?login]) status_probe) = None")
        case ok: True
        have "trace s @ [status_probe, ?login, status_probe]
                = (trace s @ [status_probe, ?login]) @ [status_probe]"
          by simp
        then show ?thesis
          using ok checkInitialized_login_ok [OF nf False True] by auto
      next
        case bad: False
        have "\<not> lpassInitialized (snd (checkInitialized env s))"
          by (simp add: checkInitialized_login_ok [OF nf False True] bad nf)
        then show ?thesis
          using fl by simp
      qed
    next
      case login: False
      show ?thesis
        using fl nf checkInitialized_login_failed [OF nf False login] by simp
    qed
  qed
  then show "fst (checkInitialized env s) = None"
    and "\<exists>pre. trace (snd (checkInitialized env s)) = pre @ [status_probe]
                  \<and> run_err (lpass env pre status_probe) = None"
    by blast+
next
  let ?login = "Invocation None [''login'', fst (fst (ReadString CHR ''\<newline>'' [] (os_Stdin s)))]"
  assume a: "\<not> lpassInitialized s \<and> run_err (lpass env (trace s) status_probe) \<noteq> None
        \<and> run_err (lpass env (trace s @ [status_probe]) ?login) \<noteq> None"
  then have c: "checkInitialized env s =
    (Some (login_failed (fst (fst (ReadString CHR ''\<newline>'' [] (os_Stdin s))))),
     s\<lparr>trace := trace s @ [status_probe, ?login],
       os_Stdin := snd (ReadString CHR ''\<newline>'' [] (os_Stdin s)),
       os_Stdout := os_Stdout s @ ''Enter your LastPass username: ''\<rparr>)"
    by (intro checkInitialized_login_failed) simp_all
  show "fst (checkInitialized env s)
          = Some (''Failed to log into `lpass`; try running `lpass login ''
                  @ fst (fst (ReadString CHR ''\<newline>'' [] (os_Stdin s))) @ ''` yourself.'')"
    using c by (simp add: login_failed_def)
  show n: "\<not> lpassInitialized (snd (checkInitialized env s))"
    using c a by simp
  show "\<exists>rest. trace (snd (checkInitialized env (snd (checkInitialized env s))))
                     = trace (snd (checkInitialized env s)) @ status_probe # rest"
    using n by (rule checkInitialized_starts_with_probe)
qed

lemma check_alice_accepted:
  "checkInitialized (sample_env (login_lpass True)) (fresh [''alice\<newline>'']) =
     (None, \<lparr>lpassInitialized = True,
             trace = [status_probe, Invocation None [''login'', ''alice\<newline>''], status_probe],
             os_Stdin = [], os_Stdout = ''Enter your LastPass username: ''\<rparr>)"
  by (simp add: checkInitialized_def runLastPassHelper_def cmd_Run_def login_block_def
      sample_env_sel login_lpass_def ok_def failure_def fresh_def status_probe_def)

text \<open>
  C9. The username is what \<open>ReadString\<close> returns, unchanged: the bytes up to and
  including the first newline, or, when the input ends before a newline, all the bytes
  read, the read error being dropped. When the first status probe fails this string is
  the argument of the \<open>login\<close> invocation, and when that invocation fails it is the
  string put into the error message.
\<close>

theorem login_username_raw:
  "fst (ReadString CHR ''\<newline>'' [] input) =
     (if CHR ''\<newline>'' \<in> set (concat input)
      then (takeWhile (\<lambda>c. c \<noteq> CHR ''\<newline>'') (concat input) @ ''\<newline>'', None)
      else (concat input, Some ''EOF''))
   \<and> (\<not> lpassInitialized s \<and> run_err (lpass env (trace s) status_probe) \<noteq> None \<longrightarrow>
        (\<exists>rest. trace (snd (checkInitialized env s)) =
           trace s @ [status_probe,
             Invocation None [''login'', fst (fst (ReadString CHR ''\<newline>'' [] (os_Stdin s)))]] @ rest)
        \<and> (run_err (lpass env (trace s @ [status_probe])
              (Invocation None [''login'', fst (fst (ReadString CHR ''\<newline>'' [] (os_Stdin s)))])) \<noteq> None \<longrightarrow>
            fst (checkInitialized env s)
              = Some (''Failed to log into `lpass`; try running `lpass login ''
                      @ fst (fst (ReadString CHR ''\<newline>'' [] (os_Stdin s))) @ ''` yourself.'')))"
proof (intro conjI impI)
  show "fst (ReadString CHR ''\<newline>'' [] input) =
     (if CHR ''\<newline>'' \<in> set (concat input)
      then (takeWhile (\<lambda>c. c \<noteq> CHR ''\<newline>'') (concat input) @ ''\<newline>'', None)
      else (concat input, Some ''EOF''))"
    using ReadString_line [of "CHR ''\<newline>''" "[]" input] by simp
next
  let ?login = "Invocation None [''login'', fst (fst (ReadString CHR ''\<newline>'' [] (os_Stdin s)))]"
  assume a: "\<not> lpassInitialized s \<and> run_err (lpass env (trace s) status_probe) \<noteq> None"
  then have nf: "\<not> lpassInitialized s" and pf: "run_err (lpass env (trace s) status_probe) \<noteq> None"
    by simp_all
  show "\<exists>rest. trace (snd (checkInitialized env s)) = trace s @ [status_probe, ?login] @ rest"
  proof (cases "run_err (lpass env (trace s @ [status_probe]) ?login) = None")
    case True
    show ?thesis
      by (simp add: checkInitialized_login_ok [OF nf pf True])
  next
    case False
    show ?thesis
      by (simp add: checkInitialized_login_failed [OF nf pf False])
  qed
  show "fst (checkInitialized env s)
          = Some (''Failed to log into `lpass`; try running `lpass login ''
                  @ fst (fst (ReadString CHR ''\<newline>'' [] (os_Stdin s))) @ ''` yourself.'')"
    if "run_err (lpass env (trace s @ [status_probe]) ?login) \<noteq> None"
    by (simp add: checkInitialized_login_failed [OF nf pf that] login_failed_def)
qed

theorem login_username_raw_witness:
  "fst (ReadString CHR ''\<newline>'' [] [''al'', ''ice\<newline>bob'', ''\<newline>'']) = (''alice\<newline>'', None)
   \<and> fst (ReadString CHR ''\<newline>'' [] [''al'', ''ice'']) = (''alice'', Some ''EOF'')
   \<and> trace (snd (checkInitialized (sample_env (login_lpass True)) (fresh [''alice\<newline>''])))
       = [status_probe, Invocation None [''login'', ''alice\<newline>''], status_probe]
   \<and> fst (checkInitialized (sample_env (login_lpass False)) (fresh [''bob'']))
       = Some ''Failed to log into `lpass`; try running `lpass login bob` yourself.''"
proof -
  let ?yes = "sample_env (login_lpass True)" and ?no = "sample_env (login_lpass False)"
  have h: "\<not> lpassInitialized (fresh [''bob''])
      \<and> run_err (lpass ?no (trace (fresh [''bob''])) status_probe) \<noteq> None"
    by (simp add: fresh_def sample_env_sel login_lpass_def failure_def status_probe_def)
  have l: "run_err (lpass ?no (trace (fresh [''bob'']) @ [status_probe])
              (Invocation None [''login'', fst (fst (ReadString CHR ''\<newline>'' [] (os_Stdin (fresh [''bob'']))))])) \<noteq> None"
    by (simp add: fresh_def sample_env_sel login_lpass_def failure_def status_probe_def)
  note r1 = login_username_raw [of "[''al'', ''ice\<newline>bob'', ''\<newline>'']", THEN conjunct1]
  note r2 = login_username_raw [of "[''al'', ''ice'']", THEN conjunct1]
  note m = login_username_raw [of _ "fresh [''bob'']" ?no, THEN conjunct2, THEN mp, OF h,
      THEN conjunct2, THEN mp, OF l]
  have u: "fst (fst (ReadString CHR ''\<newline>'' [] (os_Stdin (fresh [''bob''])))) = ''bob''"
    by (simp add: fresh_def)
  show ?thesis
    using r1 r2 m unfolding u by (simp add: check_alice_accepted)
qed

lemma checkInitialized_ok_flag:
  assumes "fst (checkInitialized env s) = None"
  shows "lpassInitialized (snd (checkInitialized env s))"
proof (cases "lpassInitialized s")
  case True
  then show ?thesis by (simp add: checkInitialized_done)
next
  case nf: False
  let ?login = "Invocation None [''login'', fst (fst (ReadString CHR ''\<newline>'' [] (os_Stdin s)))]"
  show ?thesis
  proof (cases "run_err (lpass env (trace s) status_probe) = None")
    case True
    show ?thesis
      using assms by (simp add: checkInitialized_probe_ok [OF nf True] split: if_splits)
  next
    case pf: False
    show ?thesis
    proof (cases "run_err (lpass env (trace s @ [status_probe]) ?login) = None")
      case True
      show ?thesis
        using assms by (simp add: checkInitialized_login_ok [OF nf pf True] split: if_splits)
    next
      case False
      show ?thesis
        using assms by (simp add: checkInitialized_login_failed [OF nf pf False])
    qed
  qed
qed

lemma runLastPass_ok_flag:
  assumes "runLastPass env i a s = ((v, None), s1)"
  shows "lpassInitialized s1"
proof (cases "fst (checkInitialized env s)")
  case None
  have "runLastPass env i a s = runLastPassHelper env i a (snd (checkInitialized env s))"
    using None by (simp add: runLastPass_def case_prod_beta)
  then have "s1 = snd (runLastPassHelper env i a (snd (checkInitialized env s)))"
    using assms by (metis snd_conv)
  then show ?thesis
    using checkInitialized_ok_flag [OF None] by (simp add: runLastPassHelper_state)
next
  case (Some e)
  then show ?thesis
    using assms by (simp add: runLastPass_def case_prod_beta)
qed

lemma runLastPass_step:
  assumes "lpassInitialized s"
  shows "runLastPass env i a s =
    ((if run_err (lpass env (trace s) (Invocation (Some i) a)) = None
      then runner_output (lpass env (trace s) (Invocation (Some i) a)) else [],
      runner_error (lpass env (trace s) (Invocation (Some i) a))),
     s\<lparr>trace := trace s @ [Invocation (Some i) a]\<rparr>)"
  using assms
  by (simp add: runLastPass_init runLastPassHelper_def cmd_Run_def runner_error_def
      runner_output_def split: option.splits)

lemma List_loop_Cons:
  assumes "lpassInitialized s"
  shows "List_loop env (e # es) resp s =
    (let c1 = Invocation (Some []) [''show'', ''--url'', e];
         c2 = Invocation (Some []) [''show'', ''--user'', e];
         o1 = lpass env (trace s) c1;
         o2 = lpass env (trace s @ [c1]) c2
     in if run_err o1 \<noteq> None then ((None, runner_error o1), s\<lparr>trace := trace s @ [c1]\<rparr>)
        else if run_err o2 \<noteq> None then ((None, runner_error o2), s\<lparr>trace := trace s @ [c1, c2]\<rparr>)
        else List_loop env es (resp(runner_output o1 \<mapsto> runner_output o2))
               (s\<lparr>trace := trace s @ [c1, c2]\<rparr>))"
proof -
  have f1: "lpassInitialized (s\<lparr>trace := trace s @ [Invocation (Some []) [''show'', ''--url'', e]]\<rparr>)"
    using assms by simp
  show ?thesis
    by (simp add: runLastPass_step [OF assms] runLastPass_step [OF f1] Let_def runner_error_def
        split: option.splits)
qed

lemma List_loop_fail_fast:
  assumes "lpassInitialized s"
  shows "\<exists>new. trace (snd (List_loop env es resp s)) = trace s @ new
           \<and> prefix new (concat (map show_cmds es))
           \<and> (\<forall>r \<in> set (replay env (trace s) new). run_err r \<noteq> None \<longrightarrow>
                 fst (List_loop env es resp s) = (None, runner_error r))"
  using assms
proof (induction es arbitrary: resp s)
  case Nil
  then show ?case by simp
next
  case (Cons e es)
  let ?c1 = "Invocation (Some []) [''show'', ''--url'', e]"
  let ?c2 = "Invocation (Some []) [''show'', ''--user'', e]"
  let ?o1 = "lpass env (trace s) ?c1"
  let ?o2 = "lpass env (trace s @ [?c1]) ?c2"
  let ?s2 = "s\<lparr>trace := trace s @ [?c1, ?c2]\<rparr>"
  note step = List_loop_Cons [OF Cons.prems, of env e es resp]
  consider (url) "run_err ?o1 \<noteq> None"
    | (user) "run_err ?o1 = None" "run_err ?o2 \<noteq> None"
    | (both) "run_err ?o1 = None" "run_err ?o2 = None"
    by blast
  then show ?case
  proof cases
    case url
    have "List_loop env (e # es) resp s = ((None, runner_error ?o1), s\<lparr>trace := trace s @ [?c1]\<rparr>)"
      by (subst step) (simp add: Let_def url)
    then show ?thesis
      by (intro exI [of _ "[?c1]"]) (simp add: show_cmds_def)
  next
    case user
    have "List_loop env (e # es) resp s = ((None, runner_error ?o2), ?s2)"
      by (subst step) (simp add: Let_def user)
    then show ?thesis
      using user(1) by (intro exI [of _ "[?c1, ?c2]"]) (simp add: show_cmds_def)
  next
    case both
    have eq: "List_loop env (e # es) resp s
        = List_loop env es (resp(runner_output ?o1 \<mapsto> runner_output ?o2)) ?s2"
      by (subst step) (simp add: Let_def both)
    have "lpassInitialized ?s2" using Cons.prems by simp
    from Cons.IH [OF this, of "resp(runner_output ?o1 \<mapsto> runner_output ?o2)"]
    obtain new where new:
      "trace (snd (List_loop env es (resp(runner_output ?o1 \<mapsto> runner_output ?o2)) ?s2))
         = trace ?s2 @ new"
      "prefix new (concat (map show_cmds es))"
      "\<forall>r \<in> set (replay env (trace ?s2) new). run_err r \<noteq> None \<longrightarrow>
         fst (List_loop env es (resp(runner_output ?o1 \<mapsto> runner_output ?o2)) ?s2)
           = (None, runner_error r)"
      by blast
    have t: "trace (snd (List_loop env (e # es) resp s)) = trace s @ ?c1 # ?c2 # new"
      unfolding eq new(1) by simp
    have p: "prefix (?c1 # ?c2 # new) (concat (map show_cmds (e # es)))"
      using new(2) by (simp add: show_cmds_def)
    have rp: "replay env (trace s) (?c1 # ?c2 # new) = ?o1 # ?o2 # replay env (trace ?s2) new"
      by simp
    have q: "\<forall>r \<in> set (replay env (trace s) (?c1 # ?c2 # new)). run_err r \<noteq> None \<longrightarrow>
               fst (List_loop env (e # es) resp s) = (None, runner_error r)"
      unfolding rp eq using new(3) both by auto
    show ?thesis
      using t p q by blast
  qed
qed

lemma List_loop_nil_on_error:
  "snd (fst (List_loop env es resp s)) \<noteq> None \<Longrightarrow> fst (fst (List_loop env es resp s)) = None"
  by (induction es arbitrary: resp s) (auto simp: case_prod_beta split: option.splits)

lemma List_loop_success:
  assumes "lpassInitialized s" "snd (fst (List_loop env es resp s)) = None"
  shows "trace (snd (List_loop env es resp s)) = trace s @ concat (map show_cmds es)
         \<and> (\<forall>r \<in> set (replay env (trace s) (concat (map show_cmds es))). run_err r = None)
         \<and> fst (fst (List_loop env es resp s))
             = Some (resp ++ map_of (rev (pairs_of (map runner_output
                        (replay env (trace s) (concat (map show_cmds es)))))))"
  using assms
proof (induction es arbitrary: resp s)
  case Nil
  then show ?case by simp
next
  case (Cons e es)
  let ?c1 = "Invocation (Some []) [''show'', ''--url'', e]"
  let ?c2 = "Invocation (Some []) [''show'', ''--user'', e]"
  let ?o1 = "lpass env (trace s) ?c1"
  let ?o2 = "lpass env (trace s @ [?c1]) ?c2"
  let ?s2 = "s\<lparr>trace := trace s @ [?c1, ?c2]\<rparr>"
  let ?resp = "resp(runner_output ?o1 \<mapsto> runner_output ?o2)"
  note step = List_loop_Cons [OF Cons.prems(1), of env e es resp]
  have o1: "run_err ?o1 = None"
  proof (rule ccontr)
    assume "run_err ?o1 \<noteq> None"
    then have "List_loop env (e # es) resp s = ((None, runner_error ?o1), s\<lparr>trace := trace s @ [?c1]\<rparr>)"
      by (subst step) (simp add: Let_def)
    then show False
      using Cons.prems(2) \<open>run_err ?o1 \<noteq> None\<close> by (auto simp: runner_error_def)
  qed
  have o2: "run_err ?o2 = None"
  proof (rule ccontr)
    assume "run_err ?o2 \<noteq> None"
    then have "List_loop env (e # es) resp s = ((None, runner_error ?o2), ?s2)"
      by (subst step) (simp add: Let_def o1)
    then show False
      using Cons.prems(2) \<open>run_err ?o2 \<noteq> None\<close> by (auto simp: runner_error_def)
  qed
  have eq: "List_loop env (e # es) resp s = List_loop env es ?resp ?s2"
    by (subst step) (simp add: Let_def o1 o2)
  have f2: "lpassInitialized ?s2" using Cons.prems(1) by simp
  have e2: "snd (fst (List_loop env es ?resp ?s2)) = None"
    using Cons.prems(2) unfolding eq .
  note IH = Cons.IH [OF f2 e2]
  note IH1 = IH [THEN conjunct1]
  note IH2 = IH [THEN conjunct2, THEN conjunct1]
  note IH3 = IH [THEN conjunct2, THEN conjunct2]
  have cc: "concat (map show_cmds (e # es)) = ?c1 # ?c2 # concat (map show_cmds es)"
    by (simp add: show_cmds_def)
  have rp: "replay env (trace s) (?c1 # ?c2 # concat (map show_cmds es))
             = ?o1 # ?o2 # replay env (trace ?s2) (concat (map show_cmds es))"
    by simp
  let ?ps = "pairs_of (map runner_output (replay env (trace ?s2) (concat (map show_cmds es))))"
  have pp: "pairs_of (map runner_output (?o1 # ?o2 # replay env (trace ?s2) (concat (map show_cmds es))))
              = (runner_output ?o1, runner_output ?o2) # ?ps"
    by simp
  have m: "?resp ++ map_of (rev ?ps) = resp ++ map_of (rev ((runner_output ?o1, runner_output ?o2) # ?ps))"
    by simp
  have 1: "trace (snd (List_loop env (e # es) resp s)) = trace s @ concat (map show_cmds (e # es))"
    unfolding eq cc IH1 by simp
  have 2: "\<forall>r \<in> set (replay env (trace s) (concat (map show_cmds (e # es)))). run_err r = None"
    unfolding cc rp using IH2 o1 o2 by simp
  have 3: "fst (fst (List_loop env (e # es) resp s))
             = Some (resp ++ map_of (rev (pairs_of (map runner_output
                        (replay env (trace s) (concat (map show_cmds (e # es))))))))"
    unfolding eq cc rp pp m [symmetric] by (rule IH3)
  show ?case
    using 1 2 3 by blast
qed

lemma List_as_loop:
  assumes "runLastPass env [] [''ls'', ''--format'', ''%ai'', LASTPASS_FOLDER] s = ((output, None), s1)"
  shows "List env s = List_loop env (Split output ''\<newline>'') Map.empty s1"
  by (simp add: List_def assms)

lemma List_nil_on_error:
  "snd (fst (List env s)) \<noteq> None \<Longrightarrow> fst (fst (List env s)) = None"
  by (auto simp: List_def case_prod_beta List_loop_nil_on_error split: option.splits prod.splits)

text \<open>
  What \<open>List\<close> made. Whenever \<open>List\<close> returns an error the mapping it returns is nil. After a
  listing that succeeded, the invocations \<open>List\<close> makes are an initial part of the
  per-entry \<open>show\<close> invocations, and if the tool fails on any of them, \<open>List\<close>
  returns nil and the error of that invocation.
\<close>

lemma List_made_shows:
  "(snd (fst (List env s)) \<noteq> None \<longrightarrow> fst (fst (List env s)) = None)
   \<and> (runLastPass env [] [''ls'', ''--format'', ''%ai'', LASTPASS_FOLDER] s = ((output, None), s1) \<longrightarrow>
        (\<exists>new. trace (snd (List env s)) = trace s1 @ new
           \<and> prefix new (concat (map show_cmds (Split output ''\<newline>'')))
           \<and> (\<forall>r \<in> set (replay env (trace s1) new). run_err r \<noteq> None \<longrightarrow>
                 fst (List env s) = (None, runner_error r))))"
proof (intro conjI impI)
  assume "snd (fst (List env s)) \<noteq> None"
  then show "fst (fst (List env s)) = None" by (rule List_nil_on_error)
next
  assume ls: "runLastPass env [] [''ls'', ''--format'', ''%ai'', LASTPASS_FOLDER] s = ((output, None), s1)"
  have f: "lpassInitialized s1" using ls by (rule runLastPass_ok_flag)
  show "\<exists>new. trace (snd (List env s)) = trace s1 @ new
           \<and> prefix new (concat (map show_cmds (Split output ''\<newline>'')))
           \<and> (\<forall>r \<in> set (replay env (trace s1) new). run_err r \<noteq> None \<longrightarrow>
                 fst (List env s) = (None, runner_error r))"
    unfolding List_as_loop [OF ls] using f by (rule List_loop_fail_fast)
qed

lemma map_of_rev_last:
  "k \<notin> fst ` set ys \<Longrightarrow> map_of (rev (xs @ (k, v) # ys)) k = Some v"
  by (simp add: map_add_dom_app_simps dom_map_of_conv_image_fst)

text \<open>
  C8. When \<open>List\<close> returns no error, the invocations after the listing are, for each
  identifier of the output in order, the \<open>show\<close> of the URL and then the \<open>show\<close> of the
  username, all of which succeeded; the mapping returned is built from the pairs
  (URL answer, username answer) in that order, a later pair replacing an earlier one
  with the same URL.
\<close>

theorem List_success:
  "snd (fst (List env s)) = None \<longrightarrow>
     (\<exists>output s1 m.
        runLastPass env [] [''ls'', ''--format'', ''%ai'', LASTPASS_FOLDER] s = ((output, None), s1)
        \<and> trace (snd (List env s)) = trace s1 @ concat (map show_cmds (Split output ''\<newline>''))
        \<and> (\<forall>r \<in> set (replay env (trace s1) (concat (map show_cmds (Split output ''\<newline>'')))).
              run_err r = None)
        \<and> fst (List env s) = (Some m, None)
        \<and> m = map_of (rev (pairs_of (map runner_output
                  (replay env (trace s1) (concat (map show_cmds (Split output ''\<newline>'')))))))
        \<and> (\<forall>xs k v ys.
              pairs_of (map runner_output
                (replay env (trace s1) (concat (map show_cmds (Split output ''\<newline>'')))))
                = xs @ (k, v) # ys \<and> k \<notin> fst ` set ys \<longrightarrow> m k = Some v))"
proof
  assume ok: "snd (fst (List env s)) = None"
  obtain out e s1 where ls:
    "runLastPass env [] [''ls'', ''--format'', ''%ai'', LASTPASS_FOLDER] s = ((out, e), s1)"
    by (metis prod.exhaust)
  have e: "e = None"
  proof (cases e)
    case (Some x)
    then have "List env s = ((None, Some x), s1)" by (simp add: List_def ls)
    then show ?thesis using ok by simp
  qed simp
  note ls = ls [unfolded e]
  have f: "lpassInitialized s1" using ls by (rule runLastPass_ok_flag)
  let ?cmds = "concat (map show_cmds (Split out ''\<newline>''))"
  let ?ps = "pairs_of (map runner_output (replay env (trace s1) ?cmds))"
  have ok': "snd (fst (List_loop env (Split out ''\<newline>'') Map.empty s1)) = None"
    using ok unfolding List_as_loop [OF ls] .
  note L = List_loop_success [OF f ok', folded List_as_loop [OF ls]]
  have 1: "trace (snd (List env s)) = trace s1 @ ?cmds" using L by blast
  have 2: "\<forall>r \<in> set (replay env (trace s1) ?cmds). run_err r = None" using L by blast
  have "fst (fst (List env s)) = Some (map_of (rev ?ps))" using L by simp
  then have 3: "fst (List env s) = (Some (map_of (rev ?ps)), None)"
    using ok by (metis prod.collapse)
  have 4: "\<forall>xs k v ys. ?ps = xs @ (k, v) # ys \<and> k \<notin> fst ` set ys \<longrightarrow> map_of (rev ?ps) k = Some v"
    using map_of_rev_last by metis
  show "\<exists>output s1 m.
        runLastPass env [] [''ls'', ''--format'', ''%ai'', LASTPASS_FOLDER] s = ((output, None), s1)
        \<and> trace (snd (List env s)) = trace s1 @ concat (map show_cmds (Split output ''\<newline>''))
        \<and> (\<forall>r \<in> set (replay env (trace s1) (concat (map show_cmds (Split output ''\<newline>'')))).
              run_err r = None)
        \<and> fst (List env s) = (Some m, None)
        \<and> m = map_of (rev (pairs_of (map runner_output
                  (replay env (trace s1) (concat (map show_cmds (Split output ''\<newline>'')))))))
        \<and> (\<forall>xs k v ys.
              pairs_of (map runner_output
                (replay env (trace s1) (concat (map show_cmds (Split output ''\<newline>'')))))
                = xs @ (k, v) # ys \<and> k \<notin> fst ` set ys \<longrightarrow> m k = Some v)"
    using ls 1 2 3 4 by (intro exI [of _ out] exI [of _ s1] exI [of _ "map_of (rev ?ps)"] conjI refl)
qed

lemma List_shared_url:
  "List (sample_env (table_lpass shared_url_store)) logged_in =
     ((Some [''https://x.test'' \<mapsto> ''bob''], None),
      logged_in\<lparr>trace :=
        [Invocation (Some []) [''ls'', ''--format'', ''%ai'', ''Docker Credentials''],
         Invocation (Some []) [''show'', ''--url'', ''11''],
         Invocation (Some []) [''show'', ''--user'', ''11''],
         Invocation (Some []) [''show'', ''--url'', ''12''],
         Invocation (Some []) [''show'', ''--user'', ''12'']]\<rparr>)"
  by (simp add: List_def runLastPass_def checkInitialized_def runLastPassHelper_def cmd_Run_def
      logged_in_def sample_env_sel table_lpass_def shared_url_store_def ok_def failure_def
      TrimRight_def Split_def LASTPASS_FOLDER_def)

theorem List_success_witness:
  "snd (fst (List (sample_env (table_lpass shared_url_store)) logged_in)) = None
   \<and> fst (List (sample_env (table_lpass shared_url_store)) logged_in)
       = (Some [''https://x.test'' \<mapsto> ''bob''], None)
   \<and> trace (snd (List (sample_env (table_lpass shared_url_store)) logged_in))
       = Invocation (Some []) [''ls'', ''--format'', ''%ai'', ''Docker Credentials'']
         # concat (map show_cmds [''11'', ''12''])"
proof -
  let ?E = "sample_env (table_lpass shared_url_store)"
  have h: "snd (fst (List ?E logged_in)) = None"
    by (simp add: List_shared_url)
  from List_success [of ?E logged_in, THEN mp, OF h]
  obtain out s1 m where
    "runLastPass ?E [] [''ls'', ''--format'', ''%ai'', LASTPASS_FOLDER] logged_in = ((out, None), s1)"
    "fst (List ?E logged_in) = (Some m, None)"
    by blast
  then show ?thesis
    using h by (simp add: List_shared_url show_cmds_def)
qed

lemma Split_from_length:
  "length (Split_from [c] cur s) = Suc (length (filter (\<lambda>x. x = c) s))"
  by (induction s arbitrary: cur) auto

lemma Split_length:
  "length (Split s [c]) = Suc (length (filter (\<lambda>x. x = c) s))"
  by (simp add: Split_def Split_from_length)

text \<open>
  Segments. The empty output splits into one empty identifier. So after a listing that
  returned the empty string, \<open>List\<close> runs \<open>show --url\<close> on the empty identifier and does
  not return the empty mapping with no error. The output has one more segment than
  it has newlines, and a run of \<open>List\<close> that returns no error has made the two \<open>show\<close>
  invocations for each segment.
\<close>

lemma List_segments:
  "Split [] ''\<newline>'' = [[]]
   \<and> length (Split output ''\<newline>'') = Suc (length (filter (\<lambda>c. c = CHR ''\<newline>'') output))
   \<and> (runLastPass env [] [''ls'', ''--format'', ''%ai'', LASTPASS_FOLDER] s = (([], None), s1) \<longrightarrow>
        fst (List env s) \<noteq> (Some Map.empty, None)
        \<and> (\<exists>rest. trace (snd (List env s))
                     = trace s1 @ Invocation (Some []) [''show'', ''--url'', []] # rest))
   \<and> (runLastPass env [] [''ls'', ''--format'', ''%ai'', LASTPASS_FOLDER] s = ((output, None), s1)
        \<and> snd (fst (List env s)) = None \<longrightarrow>
        trace (snd (List env s)) = trace s1 @ concat (map show_cmds (Split output ''\<newline>''))
        \<and> length (trace (snd (List env s))) = length (trace s1) + 2 * length (Split output ''\<newline>''))"
proof (intro conjI impI)
  show sp: "Split [] ''\<newline>'' = [[]]"
    by (simp add: Split_def)
  show "length (Split output ''\<newline>'') = Suc (length (filter (\<lambda>c. c = CHR ''\<newline>'') output))"
    by (rule Split_length)
  {
    assume ls: "runLastPass env [] [''ls'', ''--format'', ''%ai'', LASTPASS_FOLDER] s = (([], None), s1)"
    have f: "lpassInitialized s1" using ls by (rule runLastPass_ok_flag)
    let ?c1 = "Invocation (Some []) [''show'', ''--url'', []]"
    let ?c2 = "Invocation (Some []) [''show'', ''--user'', []]"
    let ?o1 = "lpass env (trace s1) ?c1"
    let ?o2 = "lpass env (trace s1 @ [?c1]) ?c2"
    have L: "List env s =
      (if run_err ?o1 \<noteq> None then ((None, runner_error ?o1), s1\<lparr>trace := trace s1 @ [?c1]\<rparr>)
       else if run_err ?o2 \<noteq> None then ((None, runner_error ?o2), s1\<lparr>trace := trace s1 @ [?c1, ?c2]\<rparr>)
       else ((Some [runner_output ?o1 \<mapsto> runner_output ?o2], None),
             s1\<lparr>trace := trace s1 @ [?c1, ?c2]\<rparr>))"
      unfolding List_as_loop [OF ls] sp
      by (subst List_loop_Cons [OF f]) (simp add: Let_def)
    show "fst (List env s) \<noteq> (Some Map.empty, None)"
      unfolding L by simp
    show "\<exists>rest. trace (snd (List env s)) = trace s1 @ ?c1 # rest"
      unfolding L by simp
  }
  {
    assume a: "runLastPass env [] [''ls'', ''--format'', ''%ai'', LASTPASS_FOLDER] s = ((output, None), s1)
        \<and> snd (fst (List env s)) = None"
    then have ls: "runLastPass env [] [''ls'', ''--format'', ''%ai'', LASTPASS_FOLDER] s = ((output, None), s1)"
      and ok: "snd (fst (List env s)) = None"
      by simp_all
    have f: "lpassInitialized s1" using ls by (rule runLastPass_ok_flag)
    have ok': "snd (fst (List_loop env (Split output ''\<newline>'') Map.empty s1)) = None"
      using ok unfolding List_as_loop [OF ls] .
    note L = List_loop_success [OF f ok', folded List_as_loop [OF ls], THEN conjunct1]
    show t: "trace (snd (List env s)) = trace s1 @ concat (map show_cmds (Split output ''\<newline>''))"
      by (rule L)
    have "length (concat (map show_cmds es)) = 2 * length es" for es
      by (induction es) (simp_all add: show_cmds_def)
    then show "length (trace (snd (List env s))) = length (trace s1) + 2 * length (Split output ''\<newline>'')"
      unfolding t by simp
  }
qed

lemma List_empty_store:
  "List (sample_env (table_lpass empty_store)) logged_in =
     ((None, Some ''exit status 1: Error: Could not find specified account(s).\<newline>''),
      logged_in\<lparr>trace :=
        [Invocation (Some []) [''ls'', ''--format'', ''%ai'', ''Docker Credentials''],
         Invocation (Some []) [''show'', ''--url'', []]]\<rparr>)"
  by (simp add: List_def runLastPass_def checkInitialized_def runLastPassHelper_def cmd_Run_def
      logged_in_def sample_env_sel table_lpass_def empty_store_def ok_def failure_def
      TrimRight_def Split_def LASTPASS_FOLDER_def)

lemma List_blank_line:
  "List (sample_env (table_lpass blank_line_store)) logged_in =
     ((Some [''https://z.test'' \<mapsto> ''zoe'', ''https://x.test'' \<mapsto> ''alice''], None),
      logged_in\<lparr>trace :=
        [Invocation (Some []) [''ls'', ''--format'', ''%ai'', ''Docker Credentials''],
         Invocation (Some []) [''show'', ''--url'', []],
         Invocation (Some []) [''show'', ''--user'', []],
         Invocation (Some []) [''show'', ''--url'', ''11''],
         Invocation (Some []) [''show'', ''--user'', ''11'']]\<rparr>)"
  by (simp add: List_def runLastPass_def checkInitialized_def runLastPassHelper_def cmd_Run_def
      logged_in_def sample_env_sel table_lpass_def blank_line_store_def ok_def failure_def
      TrimRight_def Split_def LASTPASS_FOLDER_def)

lemma runLastPass_checked:
  "fst (checkInitialized env s) = None \<Longrightarrow>
   runLastPass env i a s = runLastPassHelper env i a (snd (checkInitialized env s))"
  by (simp add: runLastPass_def case_prod_beta)

lemma Delete_trace:
  assumes "u \<noteq> []" "url_Parse env u = Inr p" "fst (checkInitialized env s) = None"
  shows "trace (snd (Delete env u s)) =
           trace (snd (checkInitialized env s))
           @ [Invocation (Some []) [''rm'', path_Join [LASTPASS_FOLDER, url_Hostname env p]]]"
  using assms(1)
  by (simp add: Delete_def domainInURL_ok [OF assms(2)] runLastPass_checked [OF assms(3)]
      runLastPassHelper_state case_prod_beta)

lemma Get_state:
  assumes "u \<noteq> []" "url_Parse env u = Inr p" "fst (checkInitialized env s) = None"
  shows "snd (Get env u s) =
     (snd (checkInitialized env s))
       \<lparr>trace := trace (snd (checkInitialized env s))
          @ Invocation (Some []) [''show'', ''--user'', path_Join [LASTPASS_FOLDER, url_Hostname env p]]
          # (if run_err (lpass env (trace (snd (checkInitialized env s)))
                  (Invocation (Some []) [''show'', ''--user'',
                     path_Join [LASTPASS_FOLDER, url_Hostname env p]])) = None
             then [Invocation (Some []) [''show'', ''--pass'',
                     path_Join [LASTPASS_FOLDER, url_Hostname env p]]]
             else [])\<rparr>"
proof -
  let ?s0 = "snd (checkInitialized env s)"
  let ?id = "path_Join [LASTPASS_FOLDER, url_Hostname env p]"
  let ?c1 = "Invocation (Some []) [''show'', ''--user'', ?id]"
  have f0: "lpassInitialized ?s0" using assms(3) by (rule checkInitialized_ok_flag)
  have r1: "runLastPass env [] [''show'', ''--user'', ?id] s
      = ((if run_err (lpass env (trace ?s0) ?c1) = None then runner_output (lpass env (trace ?s0) ?c1) else [],
          runner_error (lpass env (trace ?s0) ?c1)),
         ?s0\<lparr>trace := trace ?s0 @ [?c1]\<rparr>)"
    unfolding runLastPass_checked [OF assms(3)] runLastPass_init [OF f0, symmetric]
    by (rule runLastPass_step [OF f0])
  have f1: "lpassInitialized (?s0\<lparr>trace := trace ?s0 @ [?c1]\<rparr>)" using f0 by simp
  note r2 = runLastPass_step [OF f1, of env "[]" "[''show'', ''--pass'', ?id]"]
  show ?thesis
    using assms(1)
    by (simp add: Get_def domainInURL_ok [OF assms(2)] r1 r2 runner_error_def
        split: option.splits)
qed

lemma Add_trace:
  assumes "ServerURL c \<noteq> []" "url_Parse env (ServerURL c) = Inr p"
    and "fst (checkInitialized env s) = None"
  shows "\<exists>verb block. verb \<in> {''edit'', ''add''}
           \<and> trace (snd (Add env (Some c) s)) =
               trace (snd (Get env (ServerURL c) s))
               @ [Invocation (Some block)
                    [verb, ''--non-interactive'', path_Join [LASTPASS_FOLDER, url_Hostname env p]]]"
proof -
  have "lpassInitialized (snd (checkInitialized env s))"
    using assms(3) by (rule checkInitialized_ok_flag)
  then have f: "lpassInitialized (snd (Get env (ServerURL c) s))"
    unfolding Get_state [OF assms] by simp
  show ?thesis
    by (simp add: Add_def Let_def domainInURL_ok [OF assms(2)] case_prod_beta
        runLastPass_init [OF f] runLastPassHelper_state)
qed

lemma same_host_same_run:
  assumes "u1 \<noteq> []" "u2 \<noteq> []" "url_Parse env u1 = Inr p1" "url_Parse env u2 = Inr p2"
    and "url_Hostname env p1 = url_Hostname env p2"
  shows "Get env u1 s = Get env u2 s" "Delete env u1 s = Delete env u2 s"
  using assms(1,2,5)
  by (simp_all add: Get_def Delete_def domainInURL_ok [OF assms(3)] domainInURL_ok [OF assms(4)])

text \<open>
  The address \<open>docker.io\<close> has no host and the address \<open>https://.\<close> has the host
  \<open>.\<close>: the hosts differ and the entry identifiers are the same, since \<open>path.Join\<close>
  cleans the path; \<open>Delete\<close> and \<open>Get\<close> run the tool on the same entry for both.
  (Counterexample to C4 as stated.)
\<close>

theorem distinct_hosts_same_identifier:
  "domainInURL (sample_env (table_lpass [])) ''docker.io'' = ([], None)
   \<and> domainInURL (sample_env (table_lpass [])) ''https://.'' = (''.'', None)
   \<and> path_Join [LASTPASS_FOLDER, fst (domainInURL (sample_env (table_lpass [])) ''docker.io'')]
       = path_Join [LASTPASS_FOLDER, fst (domainInURL (sample_env (table_lpass [])) ''https://.'')]
   \<and> trace (snd (Delete (sample_env (table_lpass [])) ''docker.io'' logged_in))
       = [Invocation (Some []) [''rm'', ''Docker Credentials'']]
   \<and> trace (snd (Delete (sample_env (table_lpass [])) ''https://.'' logged_in))
       = [Invocation (Some []) [''rm'', ''Docker Credentials'']]
   \<and> Get (sample_env (table_lpass [])) ''docker.io'' logged_in
       = Get (sample_env (table_lpass [])) ''https://.'' logged_in
   \<and> trace (snd (Get (sample_env (table_lpass [])) ''docker.io'' logged_in))
       = [Invocation (Some []) [''show'', ''--user'', ''Docker Credentials'']]"
proof -
  have d: "domainInURL (sample_env tool) ''docker.io'' = ([], None)"
    "domainInURL (sample_env tool) ''https://.'' = (''.'', None)" for tool
    by (simp_all add: domainInURL_def sample_env_sel sample_Parse_def sample_urls_def)
  have old: "domainInURL (sample_env (table_lpass [])) ''docker.io'' = ([], None)
   \<and> domainInURL (sample_env (table_lpass [])) ''https://.'' = (''.'', None)
   \<and> path_Join [LASTPASS_FOLDER, fst (domainInURL (sample_env (table_lpass [])) ''docker.io'')]
       = path_Join [LASTPASS_FOLDER, fst (domainInURL (sample_env (table_lpass [])) ''https://.'')]"
    by (simp add: d Join_folder_empty Join_folder_dot)
  have ops: "trace (snd (Delete (sample_env (table_lpass [])) ''docker.io'' logged_in))
       = [Invocation (Some []) [''rm'', ''Docker Credentials'']]"
    "trace (snd (Delete (sample_env (table_lpass [])) ''https://.'' logged_in))
       = [Invocation (Some []) [''rm'', ''Docker Credentials'']]"
    "Get (sample_env (table_lpass [])) ''docker.io'' logged_in
       = Get (sample_env (table_lpass [])) ''https://.'' logged_in"
    "trace (snd (Get (sample_env (table_lpass [])) ''docker.io'' logged_in))
       = [Invocation (Some []) [''show'', ''--user'', ''Docker Credentials'']]"
    by (simp_all add: Delete_def Get_def d Join_folder_empty Join_folder_dot runLastPass_def
        checkInitialized_def runLastPassHelper_def cmd_Run_def logged_in_def sample_env_sel
        table_lpass_def failure_def)
  show ?thesis
    by (intro conjI old [THEN conjunct1] old [THEN conjunct2, THEN conjunct1]
        old [THEN conjunct2, THEN conjunct2] ops)
qed

text \<open>
  C4, amended. For addresses that parse: the same host gives the same entry identifier
  (the namespace joined with the host), and different hosts without a slash give
  different identifiers unless one is empty and the other is \<open>.\<close>. For an address
  that does not parse, the derivation returns the parser's error and no identifier,
  and \<open>Get\<close>, \<open>Delete\<close> and \<open>Add\<close> return that error without running the tool.
  This identifier is the entry the operations name to the tool: once the session check
  has passed, \<open>Delete\<close> runs \<open>rm\<close> on it, \<open>Get\<close> runs \<open>show --user\<close> and then at
  most \<open>show --pass\<close> on it, and \<open>Add\<close> ends with \<open>edit\<close> or \<open>add\<close> on it. So two
  addresses with the same host make \<open>Get\<close> and \<open>Delete\<close> run alike, and two with
  different hosts (under the conditions above) make them run the tool on different
  entries.
\<close>

theorem entry_identifier_by_host:
  "((url_Parse env u1 = Inr p1 \<and> url_Parse env u2 = Inr p2 \<longrightarrow>
      snd (domainInURL env u1) = None \<and> snd (domainInURL env u2) = None
      \<and> (url_Hostname env p1 = url_Hostname env p2 \<longrightarrow>
           path_Join [LASTPASS_FOLDER, fst (domainInURL env u1)]
             = path_Join [LASTPASS_FOLDER, fst (domainInURL env u2)])
      \<and> (url_Hostname env p1 \<noteq> url_Hostname env p2
           \<and> CHR ''/'' \<notin> set (url_Hostname env p1) \<and> CHR ''/'' \<notin> set (url_Hostname env p2)
           \<and> \<not> (url_Hostname env p1 = [] \<and> url_Hostname env p2 = ''.'')
           \<and> \<not> (url_Hostname env p1 = ''.'' \<and> url_Hostname env p2 = []) \<longrightarrow>
           path_Join [LASTPASS_FOLDER, fst (domainInURL env u1)]
             \<noteq> path_Join [LASTPASS_FOLDER, fst (domainInURL env u2)]))
   \<and> (url_Parse env u = Inl err \<longrightarrow>
        domainInURL env u = ([], Some err)
        \<and> (u \<noteq> [] \<longrightarrow> Get env u s = (([], [], Some err), s))
        \<and> (u \<noteq> [] \<longrightarrow> Delete env u s = (Some err, s))
        \<and> Add env (Some \<lparr>ServerURL = u, Username = name, Secret = secret\<rparr>) s = (Some err, s)))
   \<and> (u1 \<noteq> [] \<and> url_Parse env u1 = Inr p1 \<and> fst (checkInitialized env s) = None \<longrightarrow>
        trace (snd (Delete env u1 s)) =
          trace (snd (checkInitialized env s))
          @ [Invocation (Some []) [''rm'', path_Join [LASTPASS_FOLDER, url_Hostname env p1]]]
        \<and> (\<exists>rest. trace (snd (Get env u1 s)) =
              trace (snd (checkInitialized env s))
              @ Invocation (Some []) [''show'', ''--user'', path_Join [LASTPASS_FOLDER, url_Hostname env p1]]
              # rest
              \<and> (rest = [] \<or> rest = [Invocation (Some [])
                     [''show'', ''--pass'', path_Join [LASTPASS_FOLDER, url_Hostname env p1]]]))
        \<and> (\<exists>verb block. verb \<in> {''edit'', ''add''}
              \<and> trace (snd (Add env (Some \<lparr>ServerURL = u1, Username = name, Secret = secret\<rparr>) s)) =
                  trace (snd (Get env u1 s))
                  @ [Invocation (Some block)
                       [verb, ''--non-interactive'', path_Join [LASTPASS_FOLDER, url_Hostname env p1]]]))
   \<and> (u1 \<noteq> [] \<and> u2 \<noteq> [] \<and> url_Parse env u1 = Inr p1 \<and> url_Parse env u2 = Inr p2
        \<and> url_Hostname env p1 = url_Hostname env p2 \<longrightarrow>
        Get env u1 s = Get env u2 s \<and> Delete env u1 s = Delete env u2 s)
   \<and> (u1 \<noteq> [] \<and> u2 \<noteq> [] \<and> url_Parse env u1 = Inr p1 \<and> url_Parse env u2 = Inr p2
        \<and> fst (checkInitialized env s) = None
        \<and> url_Hostname env p1 \<noteq> url_Hostname env p2
        \<and> CHR ''/'' \<notin> set (url_Hostname env p1) \<and> CHR ''/'' \<notin> set (url_Hostname env p2)
        \<and> \<not> (url_Hostname env p1 = [] \<and> url_Hostname env p2 = ''.'')
        \<and> \<not> (url_Hostname env p1 = ''.'' \<and> url_Hostname env p2 = []) \<longrightarrow>
        trace (snd (Delete env u1 s)) \<noteq> trace (snd (Delete env u2 s))
        \<and> trace (snd (Get env u1 s)) \<noteq> trace (snd (Get env u2 s)))"
proof -
  have old: "(url_Parse env u1 = Inr p1 \<and> url_Parse env u2 = Inr p2 \<longrightarrow>
      snd (domainInURL env u1) = None \<and> snd (domainInURL env u2) = None
      \<and> (url_Hostname env p1 = url_Hostname env p2 \<longrightarrow>
           path_Join [LASTPASS_FOLDER, fst (domainInURL env u1)]
             = path_Join [LASTPASS_FOLDER, fst (domainInURL env u2)])
      \<and> (url_Hostname env p1 \<noteq> url_Hostname env p2
           \<and> CHR ''/'' \<notin> set (url_Hostname env p1) \<and> CHR ''/'' \<notin> set (url_Hostname env p2)
           \<and> \<not> (url_Hostname env p1 = [] \<and> url_Hostname env p2 = ''.'')
           \<and> \<not> (url_Hostname env p1 = ''.'' \<and> url_Hostname env p2 = []) \<longrightarrow>
           path_Join [LASTPASS_FOLDER, fst (domainInURL env u1)]
             \<noteq> path_Join [LASTPASS_FOLDER, fst (domainInURL env u2)]))
   \<and> (url_Parse env u = Inl err \<longrightarrow>
        domainInURL env u = ([], Some err)
        \<and> (u \<noteq> [] \<longrightarrow> Get env u s = (([], [], Some err), s))
        \<and> (u \<noteq> [] \<longrightarrow> Delete env u s = (Some err, s))
        \<and> Add env (Some \<lparr>ServerURL = u, Username = name, Secret = secret\<rparr>) s = (Some err, s))"
    by (rule entry_identifier_join)
  have ops: "u1 \<noteq> [] \<and> url_Parse env u1 = Inr p1 \<and> fst (checkInitialized env s) = None \<longrightarrow>
        trace (snd (Delete env u1 s)) =
          trace (snd (checkInitialized env s))
          @ [Invocation (Some []) [''rm'', path_Join [LASTPASS_FOLDER, url_Hostname env p1]]]
        \<and> (\<exists>rest. trace (snd (Get env u1 s)) =
              trace (snd (checkInitialized env s))
              @ Invocation (Some []) [''show'', ''--user'', path_Join [LASTPASS_FOLDER, url_Hostname env p1]]
              # rest
              \<and> (rest = [] \<or> rest = [Invocation (Some [])
                     [''show'', ''--pass'', path_Join [LASTPASS_FOLDER, url_Hostname env p1]]]))
        \<and> (\<exists>verb block. verb \<in> {''edit'', ''add''}
              \<and> trace (snd (Add env (Some \<lparr>ServerURL = u1, Username = name, Secret = secret\<rparr>) s)) =
                  trace (snd (Get env u1 s))
                  @ [Invocation (Some block)
                       [verb, ''--non-interactive'', path_Join [LASTPASS_FOLDER, url_Hostname env p1]]])"
  proof (intro impI conjI)
    assume a: "u1 \<noteq> [] \<and> url_Parse env u1 = Inr p1 \<and> fst (checkInitialized env s) = None"
    then have n: "u1 \<noteq> []" and p: "url_Parse env u1 = Inr p1"
      and c: "fst (checkInitialized env s) = None"
      by simp_all
    show "trace (snd (Delete env u1 s)) =
          trace (snd (checkInitialized env s))
          @ [Invocation (Some []) [''rm'', path_Join [LASTPASS_FOLDER, url_Hostname env p1]]]"
      using n p c by (rule Delete_trace)
    show "\<exists>rest. trace (snd (Get env u1 s)) =
              trace (snd (checkInitialized env s))
              @ Invocation (Some []) [''show'', ''--user'', path_Join [LASTPASS_FOLDER, url_Hostname env p1]]
              # rest
              \<and> (rest = [] \<or> rest = [Invocation (Some [])
                     [''show'', ''--pass'', path_Join [LASTPASS_FOLDER, url_Hostname env p1]]])"
      unfolding Get_state [OF n p c] by simp
    show "\<exists>verb block. verb \<in> {''edit'', ''add''}
              \<and> trace (snd (Add env (Some \<lparr>ServerURL = u1, Username = name, Secret = secret\<rparr>) s)) =
                  trace (snd (Get env u1 s))
                  @ [Invocation (Some block)
                       [verb, ''--non-interactive'', path_Join [LASTPASS_FOLDER, url_Hostname env p1]]]"
      using Add_trace [of "\<lparr>ServerURL = u1, Username = name, Secret = secret\<rparr>" env p1 s] n p c
      by simp
  qed
  have same: "u1 \<noteq> [] \<and> u2 \<noteq> [] \<and> url_Parse env u1 = Inr p1 \<and> url_Parse env u2 = Inr p2
        \<and> url_Hostname env p1 = url_Hostname env p2 \<longrightarrow>
        Get env u1 s = Get env u2 s \<and> Delete env u1 s = Delete env u2 s"
    using same_host_same_run [of u1 u2 env p1 p2 s] by blast
  have differ: "u1 \<noteq> [] \<and> u2 \<noteq> [] \<and> url_Parse env u1 = Inr p1 \<and> url_Parse env u2 = Inr p2
        \<and> fst (checkInitialized env s) = None
        \<and> url_Hostname env p1 \<noteq> url_Hostname env p2
        \<and> CHR ''/'' \<notin> set (url_Hostname env p1) \<and> CHR ''/'' \<notin> set (url_Hostname env p2)
        \<and> \<not> (url_Hostname env p1 = [] \<and> url_Hostname env p2 = ''.'')
        \<and> \<not> (url_Hostname env p1 = ''.'' \<and> url_Hostname env p2 = []) \<longrightarrow>
        trace (snd (Delete env u1 s)) \<noteq> trace (snd (Delete env u2 s))
        \<and> trace (snd (Get env u1 s)) \<noteq> trace (snd (Get env u2 s))"
  proof
    assume a: "u1 \<noteq> [] \<and> u2 \<noteq> [] \<and> url_Parse env u1 = Inr p1 \<and> url_Parse env u2 = Inr p2
        \<and> fst (checkInitialized env s) = None
        \<and> url_Hostname env p1 \<noteq> url_Hostname env p2
        \<and> CHR ''/'' \<notin> set (url_Hostname env p1) \<and> CHR ''/'' \<notin> set (url_Hostname env p2)
        \<and> \<not> (url_Hostname env p1 = [] \<and> url_Hostname env p2 = ''.'')
        \<and> \<not> (url_Hostname env p1 = ''.'' \<and> url_Hostname env p2 = [])"
    then have n: "u1 \<noteq> []" "u2 \<noteq> []" and p: "url_Parse env u1 = Inr p1" "url_Parse env u2 = Inr p2"
      and c: "fst (checkInitialized env s) = None"
      by simp_all
    have ne: "path_Join [LASTPASS_FOLDER, url_Hostname env p1]
                \<noteq> path_Join [LASTPASS_FOLDER, url_Hostname env p2]"
      using a by (intro Join_folder_inj) simp_all
    show "trace (snd (Delete env u1 s)) \<noteq> trace (snd (Delete env u2 s))
        \<and> trace (snd (Get env u1 s)) \<noteq> trace (snd (Get env u2 s))"
      unfolding Delete_trace [OF n(1) p(1) c] Delete_trace [OF n(2) p(2) c]
        Get_state [OF n(1) p(1) c] Get_state [OF n(2) p(2) c]
      using ne by simp
  qed
  show ?thesis
    by (rule conjI [OF old]) (intro conjI ops same differ)
qed

theorem entry_identifier_by_host_witness:
  "path_Join [LASTPASS_FOLDER, fst (domainInURL (sample_env (table_lpass [])) ''https://example.com/login'')]
     = path_Join [LASTPASS_FOLDER, fst (domainInURL (sample_env (table_lpass [])) ''https://example.com'')]
   \<and> path_Join [LASTPASS_FOLDER, fst (domainInURL (sample_env (table_lpass [])) ''https://example.com/login'')]
     \<noteq> path_Join [LASTPASS_FOLDER, fst (domainInURL (sample_env (table_lpass [])) ''https://registry.test:5000/v1/'')]
   \<and> Get (sample_env (table_lpass [])) ''%zz'' (fresh [])
     = (([], [], Some (''parse '' @ [CHR 0x22] @ ''%zz'' @ [CHR 0x22] @ '': invalid URL escape ''
                       @ [CHR 0x22] @ ''%zz'' @ [CHR 0x22])), fresh [])
   \<and> trace (snd (Delete (sample_env (table_lpass [])) ''https://example.com/login'' logged_in))
     = [Invocation (Some []) [''rm'', ''Docker Credentials/example.com'']]
   \<and> Get (sample_env (table_lpass [])) ''https://example.com/login'' logged_in
     = Get (sample_env (table_lpass [])) ''https://example.com'' logged_in
   \<and> trace (snd (Delete (sample_env (table_lpass [])) ''https://example.com/login'' logged_in))
     \<noteq> trace (snd (Delete (sample_env (table_lpass [])) ''https://registry.test:5000/v1/'' logged_in))
   \<and> trace (snd (Get (sample_env (table_lpass [])) ''https://example.com/login'' logged_in))
     \<noteq> trace (snd (Get (sample_env (table_lpass [])) ''https://registry.test:5000/v1/'' logged_in))"
proof -
  let ?E = "sample_env (table_lpass [])"
  let ?u1 = "''https://example.com/login''" and ?u2 = "''https://example.com''"
  let ?u3 = "''https://registry.test:5000/v1/''"
  have p: "url_Parse ?E ?u1 = Inr ''example.com''"
    "url_Parse ?E ?u2 = Inr ''example.com''"
    "url_Parse ?E ?u3 = Inr ''registry.test''"
    "url_Parse ?E ''%zz'' = Inl (''parse '' @ [CHR 0x22] @ ''%zz'' @ [CHR 0x22]
        @ '': invalid URL escape '' @ [CHR 0x22] @ ''%zz'' @ [CHR 0x22])"
    by (simp_all add: sample_env_def sample_Parse_def sample_urls_def)
  have h: "url_Hostname ?E = (\<lambda>h. h)" by (simp add: sample_env_def)
  have c: "checkInitialized ?E logged_in = (None, logged_in)"
    by (simp add: checkInitialized_def logged_in_def)
  have j: "path_Join [LASTPASS_FOLDER, ''example.com''] = ''Docker Credentials/example.com''"
    by (simp add: Join_folder_plain)
  have t0: "trace logged_in = []" by (simp add: logged_in_def)
  note same = entry_identifier_by_host [of ?E ?u1 "''example.com''" ?u2 "''example.com''"
      "''%zz''" _ "fresh []"]
  note diff = entry_identifier_by_host [of ?E ?u1 "''example.com''" ?u3 "''registry.test''"
      "''%zz''" _ "fresh []"]
  have old: "path_Join [LASTPASS_FOLDER, fst (domainInURL ?E ?u1)]
               = path_Join [LASTPASS_FOLDER, fst (domainInURL ?E ?u2)]
     \<and> path_Join [LASTPASS_FOLDER, fst (domainInURL ?E ?u1)]
               \<noteq> path_Join [LASTPASS_FOLDER, fst (domainInURL ?E ?u3)]
     \<and> Get ?E ''%zz'' (fresh [])
         = (([], [], Some (''parse '' @ [CHR 0x22] @ ''%zz'' @ [CHR 0x22] @ '': invalid URL escape ''
                           @ [CHR 0x22] @ ''%zz'' @ [CHR 0x22])), fresh [])"
    using same [THEN conjunct1] diff [THEN conjunct1] unfolding p h by simp
  note ops = entry_identifier_by_host [of ?E ?u1 "''example.com''" ?u2 "''example.com''"
      _ _ logged_in, THEN conjunct2]
  have d: "trace (snd (Delete ?E ?u1 logged_in))
            = [Invocation (Some []) [''rm'', ''Docker Credentials/example.com'']]"
    using ops [THEN conjunct1] unfolding p h c by (simp add: j t0)
  have g: "Get ?E ?u1 logged_in = Get ?E ?u2 logged_in"
    using ops [THEN conjunct2, THEN conjunct1] unfolding p h by simp
  note ops3 = entry_identifier_by_host [of ?E ?u1 "''example.com''" ?u3 "''registry.test''"
      _ _ logged_in, THEN conjunct2, THEN conjunct2, THEN conjunct2]
  have n: "trace (snd (Delete ?E ?u1 logged_in)) \<noteq> trace (snd (Delete ?E ?u3 logged_in))
      \<and> trace (snd (Get ?E ?u1 logged_in)) \<noteq> trace (snd (Get ?E ?u3 logged_in))"
    using ops3 unfolding p h c by simp
  show ?thesis
    by (intro conjI old [THEN conjunct1] old [THEN conjunct2, THEN conjunct1]
        old [THEN conjunct2, THEN conjunct2] d g n [THEN conjunct1] n [THEN conjunct2])
qed

lemma replay_length: "length (replay env hist cs) = length cs"
  by (induction cs arbitrary: hist) simp_all

lemma replay_append:
  "replay env hist (as @ bs) = replay env hist as @ replay env (hist @ as) bs"
  by (induction as arbitrary: hist) simp_all

lemma probed_ok_append:
  "probed_ok env hist (as @ bs) \<longleftrightarrow> probed_ok env hist as \<or> probed_ok env (hist @ as) bs"
  by (auto simp: probed_ok_def replay_append replay_length)

lemma flag_by_probeI:
  assumes "trace s' = trace s @ new"
    and "lpassInitialized s \<Longrightarrow> lpassInitialized s'"
    and "lpassInitialized s' \<Longrightarrow> \<not> lpassInitialized s \<Longrightarrow> probed_ok env (trace s) new"
  shows "flag_by_probe env s s'"
  using assms by (auto simp: flag_by_probe_def)

lemma flag_by_probe_refl: "flag_by_probe env s s"
  by (simp add: flag_by_probe_def)

lemma flag_by_probe_trans:
  assumes "flag_by_probe env s s1" "flag_by_probe env s1 s2"
  shows "flag_by_probe env s s2"
proof -
  obtain as where as: "trace s1 = trace s @ as"
    using assms(1) by (auto simp: flag_by_probe_def prefix_def)
  obtain bs where bs: "trace s2 = trace s1 @ bs"
    using assms(2) by (auto simp: flag_by_probe_def prefix_def)
  have t: "trace s2 = trace s @ (as @ bs)" using as bs by simp
  show ?thesis
  proof (rule flag_by_probeI [OF t])
    assume "lpassInitialized s"
    then show "lpassInitialized s2"
      using assms by (simp add: flag_by_probe_def)
  next
    assume f2: "lpassInitialized s2" and nf: "\<not> lpassInitialized s"
    show "probed_ok env (trace s) (as @ bs)"
    proof (cases "lpassInitialized s1")
      case True
      then have "probed_ok env (trace s) as"
        using assms(1) nf as by (simp add: flag_by_probe_def)
      then show ?thesis by (simp add: probed_ok_append)
    next
      case False
      then have "probed_ok env (trace s1) bs"
        using assms(2) f2 bs by (simp add: flag_by_probe_def)
      then show ?thesis by (simp add: probed_ok_append as)
    qed
  qed
qed

lemma flag_by_probe_extends:
  assumes "flag_by_probe env s1 s2" "trace s1 = trace s @ c # rest"
  shows "\<exists>rest'. trace s2 = trace s @ c # rest'"
  using assms by (auto simp: flag_by_probe_def prefix_def)

lemma flag_by_probe_helper:
  "flag_by_probe env s (snd (runLastPassHelper env i a s))"
  by (rule flag_by_probeI [of _ _ "[Invocation (Some i) a]"])
    (simp_all add: runLastPassHelper_state)

lemma flag_by_probe_check:
  "flag_by_probe env s (snd (checkInitialized env s))"
proof (cases "lpassInitialized s")
  case True
  then show ?thesis by (simp add: checkInitialized_done flag_by_probe_refl)
next
  case nf: False
  let ?login = "Invocation None [''login'', fst (fst (ReadString CHR ''\<newline>'' [] (os_Stdin s)))]"
  show ?thesis
  proof (cases "run_err (lpass env (trace s) status_probe) = None")
    case True
    show ?thesis
      by (rule flag_by_probeI [of _ _ "[status_probe, status_probe]"])
        (simp_all add: checkInitialized_probe_ok [OF nf True] probed_ok_def True)
  next
    case pf: False
    show ?thesis
    proof (cases "run_err (lpass env (trace s @ [status_probe]) ?login) = None")
      case True
      show ?thesis
        by (rule flag_by_probeI [of _ _ "[status_probe, ?login, status_probe]"])
          (simp_all add: checkInitialized_login_ok [OF nf pf True] probed_ok_def nf split: if_splits)
    next
      case False
      show ?thesis
        by (rule flag_by_probeI [of _ _ "[status_probe, ?login]"])
          (simp_all add: checkInitialized_login_failed [OF nf pf False] nf)
    qed
  qed
qed

lemma runLastPass_state:
  "snd (runLastPass env i a s) =
     (if fst (checkInitialized env s) = None
      then snd (runLastPassHelper env i a (snd (checkInitialized env s)))
      else snd (checkInitialized env s))"
  by (simp add: runLastPass_def case_prod_beta split: option.splits)

lemma flag_by_probe_runLastPass:
  "flag_by_probe env s (snd (runLastPass env i a s))"
  unfolding runLastPass_state
  using flag_by_probe_check [of env s]
    flag_by_probe_trans [OF flag_by_probe_check flag_by_probe_helper, of env s i a]
  by simp

lemma flag_by_probe_two:
  "flag_by_probe env s (snd (runLastPass env i' a' (snd (runLastPass env i a s))))"
  by (rule flag_by_probe_trans [OF flag_by_probe_runLastPass flag_by_probe_runLastPass])

lemma flag_by_probe_Get:
  "flag_by_probe env s (snd (Get env u s))"
  by (simp add: Get_def case_prod_beta flag_by_probe_refl flag_by_probe_runLastPass
      flag_by_probe_two split: option.splits)

lemma flag_by_probe_Delete:
  "flag_by_probe env s (snd (Delete env u s))"
  by (simp add: Delete_def Let_def case_prod_beta flag_by_probe_refl flag_by_probe_runLastPass
      split: option.splits)

lemma flag_by_probe_Add:
  "flag_by_probe env s (snd (Add env c s))"
proof -
  have "flag_by_probe env s (snd (runLastPass env i a (snd (Get env u s))))" for i a u
    by (rule flag_by_probe_trans [OF flag_by_probe_Get flag_by_probe_runLastPass])
  then show ?thesis
    by (simp add: Add_def Let_def case_prod_beta flag_by_probe_refl split: option.splits)
qed

lemma flag_by_probe_List_loop:
  "flag_by_probe env s (snd (List_loop env es resp s))"
proof (induction es arbitrary: resp s)
  case Nil
  show ?case by (simp add: flag_by_probe_refl)
next
  case (Cons e es)
  have "flag_by_probe env s (snd (List_loop env es r
          (snd (runLastPass env i' a' (snd (runLastPass env i a s))))))" for r i a i' a'
    by (rule flag_by_probe_trans [OF flag_by_probe_two Cons.IH])
  then show ?case
    by (simp add: case_prod_beta flag_by_probe_runLastPass flag_by_probe_two split: option.splits)
qed

lemma flag_by_probe_List:
  "flag_by_probe env s (snd (List env s))"
proof -
  have "flag_by_probe env s (snd (List_loop env es r (snd (runLastPass env i a s))))" for es r i a
    by (rule flag_by_probe_trans [OF flag_by_probe_runLastPass flag_by_probe_List_loop])
  then show ?thesis
    by (simp add: List_def case_prod_beta flag_by_probe_runLastPass split: option.splits)
qed

lemma runLastPass_starts_with_probe:
  assumes "\<not> lpassInitialized s"
  shows "\<exists>rest. trace (snd (runLastPass env i a s)) = trace s @ status_probe # rest"
proof -
  obtain rest where r: "trace (snd (checkInitialized env s)) = trace s @ status_probe # rest"
    using checkInitialized_starts_with_probe [OF assms] by blast
  show ?thesis
    unfolding runLastPass_state by (simp add: r runLastPassHelper_state)
qed

lemma then_starts_with_probe:
  assumes "\<not> lpassInitialized s" "flag_by_probe env (snd (runLastPass env i a s)) s2"
  shows "\<exists>rest. trace s2 = trace s @ status_probe # rest"
proof -
  obtain rest where "trace (snd (runLastPass env i a s)) = trace s @ status_probe # rest"
    using runLastPass_starts_with_probe [OF assms(1)] by blast
  then show ?thesis
    by (rule flag_by_probe_extends [OF assms(2)])
qed

lemma Delete_starts_with_probe:
  assumes "\<not> lpassInitialized s" "u \<noteq> []" "url_Parse env u = Inr p"
  shows "\<exists>rest. trace (snd (Delete env u s)) = trace s @ status_probe # rest"
  using runLastPass_starts_with_probe [OF assms(1)] assms(2)
  by (simp add: Delete_def domainInURL_ok [OF assms(3)] case_prod_beta)

lemma Get_starts_with_probe:
  assumes "\<not> lpassInitialized s" "u \<noteq> []" "url_Parse env u = Inr p"
  shows "\<exists>rest. trace (snd (Get env u s)) = trace s @ status_probe # rest"
proof -
  note a = runLastPass_starts_with_probe [OF assms(1)]
  note b = then_starts_with_probe [OF assms(1) flag_by_probe_runLastPass]
  show ?thesis
    using assms(2)
    by (simp add: Get_def domainInURL_ok [OF assms(3)] case_prod_beta a b split: option.splits)
qed

lemma Add_starts_with_probe:
  assumes "\<not> lpassInitialized s" "url_Parse env (ServerURL c) = Inr p"
  shows "\<exists>rest. trace (snd (Add env (Some c) s)) = trace s @ status_probe # rest"
proof -
  have "\<exists>rest'. trace (snd (runLastPass env i a (snd (Get env (ServerURL c) s))))
          = trace s @ status_probe # rest'" for i a
  proof (cases "ServerURL c = []")
    case True
    then have "snd (Get env (ServerURL c) s) = s" by (simp add: Get_def)
    then show ?thesis using runLastPass_starts_with_probe [OF assms(1)] by simp
  next
    case False
    obtain rest where g: "trace (snd (Get env (ServerURL c) s)) = trace s @ status_probe # rest"
      using Get_starts_with_probe [OF assms(1) False assms(2)] by blast
    show ?thesis
      by (rule flag_by_probe_extends [OF flag_by_probe_runLastPass g])
  qed
  then show ?thesis
    by (simp add: Add_def Let_def domainInURL_ok [OF assms(2)] case_prod_beta)
qed

lemma List_starts_with_probe:
  assumes "\<not> lpassInitialized s"
  shows "\<exists>rest. trace (snd (List env s)) = trace s @ status_probe # rest"
proof -
  note a = runLastPass_starts_with_probe [OF assms]
  note b = then_starts_with_probe [OF assms flag_by_probe_List_loop]
  show ?thesis
    by (simp add: List_def case_prod_beta a b split: option.splits)
qed

lemma runLastPass_login_failed:
  assumes "\<not> lpassInitialized s" "run_err (lpass env (trace s) status_probe) \<noteq> None"
    and "run_err (lpass env (trace s @ [status_probe])
           (Invocation None [''login'', fst (fst (ReadString CHR ''\<newline>'' [] (os_Stdin s)))])) \<noteq> None"
  shows "runLastPass env i a s =
    (([], Some (''Failed to log into `lpass`; try running `lpass login ''
                @ fst (fst (ReadString CHR ''\<newline>'' [] (os_Stdin s))) @ ''` yourself.'')),
     snd (checkInitialized env s))"
  by (simp add: runLastPass_def checkInitialized_login_failed [OF assms] login_failed_def)

text \<open>
  C5. The flag is set only after a status probe has succeeded, and it is never reset:
  over \<open>checkInitialized\<close>, \<open>runLastPass\<close> and each of the four operations the trace
  only grows, a set flag stays set, and a flag found set afterwards was set before or
  a status probe succeeded in between. With the flag set, the check returns success
  and the state as it was (nothing run). When the probe fails and then the login
  fails, the check and \<open>runLastPass\<close> return the login error with the username read
  and the flag stays unset; and whenever the flag is unset, the next call of the
  check, of \<open>runLastPass\<close> or of an operation starts with the status probe again.
\<close>

theorem session_flag:
  "((lpassInitialized s \<longrightarrow>
      checkInitialized env s = (None, s)
      \<and> lpassInitialized (snd (runLastPass env i a s))
      \<and> lpassInitialized (snd (Get env u s)) \<and> lpassInitialized (snd (Add env c s))
      \<and> lpassInitialized (snd (Delete env u s)) \<and> lpassInitialized (snd (List env s)))
   \<and> (\<not> lpassInitialized s \<and> lpassInitialized (snd (checkInitialized env s)) \<longrightarrow>
        fst (checkInitialized env s) = None
        \<and> (\<exists>pre. trace (snd (checkInitialized env s)) = pre @ [status_probe]
                  \<and> run_err (lpass env pre status_probe) = None))
   \<and> (\<not> lpassInitialized s \<and> run_err (lpass env (trace s) status_probe) \<noteq> None
        \<and> run_err (lpass env (trace s @ [status_probe])
             (Invocation None [''login'', fst (fst (ReadString CHR ''\<newline>'' [] (os_Stdin s)))])) \<noteq> None \<longrightarrow>
        fst (checkInitialized env s)
          = Some (''Failed to log into `lpass`; try running `lpass login ''
                  @ fst (fst (ReadString CHR ''\<newline>'' [] (os_Stdin s))) @ ''` yourself.'')
        \<and> \<not> lpassInitialized (snd (checkInitialized env s))
        \<and> (\<exists>rest. trace (snd (checkInitialized env (snd (checkInitialized env s))))
                     = trace (snd (checkInitialized env s)) @ status_probe # rest)))
   \<and> flag_by_probe env s (snd (checkInitialized env s))
   \<and> flag_by_probe env s (snd (runLastPass env i a s))
   \<and> flag_by_probe env s (snd (Get env u s))
   \<and> flag_by_probe env s (snd (Add env c s))
   \<and> flag_by_probe env s (snd (Delete env u s))
   \<and> flag_by_probe env s (snd (List env s))
   \<and> (\<not> lpassInitialized s \<longrightarrow>
        (\<exists>rest. trace (snd (runLastPass env i a s)) = trace s @ status_probe # rest)
        \<and> (\<exists>rest. trace (snd (List env s)) = trace s @ status_probe # rest)
        \<and> (u \<noteq> [] \<and> url_Parse env u = Inr p \<longrightarrow>
             (\<exists>rest. trace (snd (Get env u s)) = trace s @ status_probe # rest)
             \<and> (\<exists>rest. trace (snd (Delete env u s)) = trace s @ status_probe # rest))
        \<and> (url_Parse env (ServerURL cr) = Inr p \<longrightarrow>
             (\<exists>rest. trace (snd (Add env (Some cr) s)) = trace s @ status_probe # rest)))
   \<and> (\<not> lpassInitialized s \<and> run_err (lpass env (trace s) status_probe) \<noteq> None
        \<and> run_err (lpass env (trace s @ [status_probe])
             (Invocation None [''login'', fst (fst (ReadString CHR ''\<newline>'' [] (os_Stdin s)))])) \<noteq> None \<longrightarrow>
        runLastPass env i a s =
          (([], Some (''Failed to log into `lpass`; try running `lpass login ''
                      @ fst (fst (ReadString CHR ''\<newline>'' [] (os_Stdin s))) @ ''` yourself.'')),
           snd (checkInitialized env s))
        \<and> \<not> lpassInitialized (snd (runLastPass env i a s))
        \<and> (\<exists>rest. trace (snd (runLastPass env i' a' (snd (runLastPass env i a s))))
                     = trace (snd (runLastPass env i a s)) @ status_probe # rest))"
proof -
  have old: "(lpassInitialized s \<longrightarrow>
      checkInitialized env s = (None, s)
      \<and> lpassInitialized (snd (runLastPass env i a s))
      \<and> lpassInitialized (snd (Get env u s)) \<and> lpassInitialized (snd (Add env c s))
      \<and> lpassInitialized (snd (Delete env u s)) \<and> lpassInitialized (snd (List env s)))
   \<and> (\<not> lpassInitialized s \<and> lpassInitialized (snd (checkInitialized env s)) \<longrightarrow>
        fst (checkInitialized env s) = None
        \<and> (\<exists>pre. trace (snd (checkInitialized env s)) = pre @ [status_probe]
                  \<and> run_err (lpass env pre status_probe) = None))
   \<and> (\<not> lpassInitialized s \<and> run_err (lpass env (trace s) status_probe) \<noteq> None
        \<and> run_err (lpass env (trace s @ [status_probe])
             (Invocation None [''login'', fst (fst (ReadString CHR ''\<newline>'' [] (os_Stdin s)))])) \<noteq> None \<longrightarrow>
        fst (checkInitialized env s)
          = Some (''Failed to log into `lpass`; try running `lpass login ''
                  @ fst (fst (ReadString CHR ''\<newline>'' [] (os_Stdin s))) @ ''` yourself.'')
        \<and> \<not> lpassInitialized (snd (checkInitialized env s))
        \<and> (\<exists>rest. trace (snd (checkInitialized env (snd (checkInitialized env s))))
                     = trace (snd (checkInitialized env s)) @ status_probe # rest))"
    by (rule checkInitialized_flag)
  have retry: "\<not> lpassInitialized s \<longrightarrow>
        (\<exists>rest. trace (snd (runLastPass env i a s)) = trace s @ status_probe # rest)
        \<and> (\<exists>rest. trace (snd (List env s)) = trace s @ status_probe # rest)
        \<and> (u \<noteq> [] \<and> url_Parse env u = Inr p \<longrightarrow>
             (\<exists>rest. trace (snd (Get env u s)) = trace s @ status_probe # rest)
             \<and> (\<exists>rest. trace (snd (Delete env u s)) = trace s @ status_probe # rest))
        \<and> (url_Parse env (ServerURL cr) = Inr p \<longrightarrow>
             (\<exists>rest. trace (snd (Add env (Some cr) s)) = trace s @ status_probe # rest))"
  proof (intro impI conjI)
    assume nf: "\<not> lpassInitialized s"
    show "\<exists>rest. trace (snd (runLastPass env i a s)) = trace s @ status_probe # rest"
      using nf by (rule runLastPass_starts_with_probe)
    show "\<exists>rest. trace (snd (List env s)) = trace s @ status_probe # rest"
      using nf by (rule List_starts_with_probe)
    show "\<exists>rest. trace (snd (Get env u s)) = trace s @ status_probe # rest"
      if "u \<noteq> [] \<and> url_Parse env u = Inr p"
      using that by (intro Get_starts_with_probe [OF nf]) simp_all
    show "\<exists>rest. trace (snd (Delete env u s)) = trace s @ status_probe # rest"
      if "u \<noteq> [] \<and> url_Parse env u = Inr p"
      using that by (intro Delete_starts_with_probe [OF nf]) simp_all
    show "\<exists>rest. trace (snd (Add env (Some cr) s)) = trace s @ status_probe # rest"
      if "url_Parse env (ServerURL cr) = Inr p"
      using nf that by (rule Add_starts_with_probe)
  qed
  have failed: "\<not> lpassInitialized s \<and> run_err (lpass env (trace s) status_probe) \<noteq> None
        \<and> run_err (lpass env (trace s @ [status_probe])
             (Invocation None [''login'', fst (fst (ReadString CHR ''\<newline>'' [] (os_Stdin s)))])) \<noteq> None \<longrightarrow>
        runLastPass env i a s =
          (([], Some (''Failed to log into `lpass`; try running `lpass login ''
                      @ fst (fst (ReadString CHR ''\<newline>'' [] (os_Stdin s))) @ ''` yourself.'')),
           snd (checkInitialized env s))
        \<and> \<not> lpassInitialized (snd (runLastPass env i a s))
        \<and> (\<exists>rest. trace (snd (runLastPass env i' a' (snd (runLastPass env i a s))))
                     = trace (snd (runLastPass env i a s)) @ status_probe # rest)"
  proof
    let ?login = "Invocation None [''login'', fst (fst (ReadString CHR ''\<newline>'' [] (os_Stdin s)))]"
    assume a: "\<not> lpassInitialized s \<and> run_err (lpass env (trace s) status_probe) \<noteq> None
        \<and> run_err (lpass env (trace s @ [status_probe]) ?login) \<noteq> None"
    then have nf: "\<not> lpassInitialized s"
      and pf: "run_err (lpass env (trace s) status_probe) \<noteq> None"
      and lf: "run_err (lpass env (trace s @ [status_probe]) ?login) \<noteq> None"
      by simp_all
    note r = runLastPass_login_failed [OF nf pf lf, of i a]
    have n: "\<not> lpassInitialized (snd (runLastPass env i a s))"
      unfolding r by (simp add: checkInitialized_login_failed [OF nf pf lf] nf)
    show "runLastPass env i a s =
          (([], Some (''Failed to log into `lpass`; try running `lpass login ''
                      @ fst (fst (ReadString CHR ''\<newline>'' [] (os_Stdin s))) @ ''` yourself.'')),
           snd (checkInitialized env s))
        \<and> \<not> lpassInitialized (snd (runLastPass env i a s))
        \<and> (\<exists>rest. trace (snd (runLastPass env i' a' (snd (runLastPass env i a s))))
                     = trace (snd (runLastPass env i a s)) @ status_probe # rest)"
      using r n runLastPass_starts_with_probe [OF n] by (intro conjI)
  qed
  show ?thesis
    by (intro old retry failed flag_by_probe_check flag_by_probe_runLastPass flag_by_probe_Get
        flag_by_probe_Add flag_by_probe_Delete flag_by_probe_List conjI)
qed

lemma Delete_after_login:
  "Delete (sample_env (login_lpass True)) ''https://example.com'' (fresh [''alice\<newline>'']) =
     (None, \<lparr>lpassInitialized = True,
             trace = [status_probe, Invocation None [''login'', ''alice\<newline>''], status_probe,
                      Invocation (Some []) [''rm'', ''Docker Credentials/example.com'']],
             os_Stdin = [], os_Stdout = ''Enter your LastPass username: ''\<rparr>)"
proof -
  have j: "path_Join [LASTPASS_FOLDER, ''example.com''] = ''Docker Credentials/example.com''"
    by (simp add: Join_folder_plain)
  have d: "domainInURL (sample_env tool) ''https://example.com'' = (''example.com'', None)" for tool
    by (simp add: domainInURL_def sample_env_sel sample_Parse_def sample_urls_def)
  show ?thesis
    by (simp add: Delete_def d j runLastPass_def check_alice_accepted runLastPassHelper_def
        cmd_Run_def sample_env_sel login_lpass_def ok_def status_probe_def)
qed

theorem session_flag_witness:
  "checkInitialized (sample_env (login_lpass True)) logged_in = (None, logged_in)
   \<and> lpassInitialized (snd (List (sample_env (login_lpass True)) logged_in))
   \<and> lpassInitialized (snd (checkInitialized (sample_env (login_lpass True)) (fresh [''alice\<newline>''])))
   \<and> fst (checkInitialized (sample_env (login_lpass True)) (fresh [''alice\<newline>''])) = None
   \<and> fst (checkInitialized (sample_env (login_lpass False)) (fresh [''alice\<newline>'']))
       = Some ''Failed to log into `lpass`; try running `lpass login alice\<newline>` yourself.''
   \<and> \<not> lpassInitialized (snd (checkInitialized (sample_env (login_lpass False)) (fresh [''alice\<newline>''])))
   \<and> \<not> lpassInitialized (fresh [''alice\<newline>''])
   \<and> lpassInitialized (snd (Delete (sample_env (login_lpass True)) ''https://example.com''
                               (fresh [''alice\<newline>''])))
   \<and> flag_by_probe (sample_env (login_lpass True)) (fresh [''alice\<newline>''])
         (snd (Delete (sample_env (login_lpass True)) ''https://example.com'' (fresh [''alice\<newline>''])))
   \<and> probed_ok (sample_env (login_lpass True)) []
         (trace (snd (Delete (sample_env (login_lpass True)) ''https://example.com''
                        (fresh [''alice\<newline>'']))))
   \<and> (\<exists>rest. trace (snd (Delete (sample_env (login_lpass False)) ''https://example.com''
                             (fresh [''alice\<newline>''])))
               = trace (fresh [''alice\<newline>'']) @ status_probe # rest)
   \<and> fst (runLastPass (sample_env (login_lpass False)) [] [''ls''] (fresh [''alice\<newline>'']))
       = ([], Some ''Failed to log into `lpass`; try running `lpass login alice\<newline>` yourself.'')
   \<and> \<not> lpassInitialized (snd (runLastPass (sample_env (login_lpass False)) [] [''ls'']
                                 (fresh [''alice\<newline>''])))"
proof -
  let ?yes = "sample_env (login_lpass True)" and ?no = "sample_env (login_lpass False)"
  let ?s = "fresh [''alice\<newline>'']"
  have h1: "lpassInitialized logged_in"
    by (simp add: logged_in_def)
  have nf: "\<not> lpassInitialized ?s"
    by (simp add: fresh_def)
  have h2: "\<not> lpassInitialized ?s \<and> lpassInitialized (snd (checkInitialized ?yes ?s))"
    by (simp add: check_alice_accepted) (simp add: fresh_def)
  have h3: "\<not> lpassInitialized ?s \<and> run_err (lpass ?no (trace ?s) status_probe) \<noteq> None
        \<and> run_err (lpass ?no (trace ?s @ [status_probe])
             (Invocation None [''login'', fst (fst (ReadString CHR ''\<newline>'' [] (os_Stdin ?s)))])) \<noteq> None"
    by (simp add: fresh_def sample_env_sel login_lpass_def failure_def status_probe_def)
  have h4: "''https://example.com'' \<noteq> [] \<and> url_Parse ?no ''https://example.com'' = Inr ''example.com''"
    by (simp add: sample_env_sel sample_Parse_def sample_urls_def)
  note old = session_flag [THEN conjunct1]
  note a = old [of logged_in ?yes, THEN conjunct1, THEN mp, OF h1]
  note b = old [of ?s ?yes, THEN conjunct2, THEN conjunct1, THEN mp, OF h2]
  note c = old [of ?s ?no, THEN conjunct2, THEN conjunct2, THEN mp, OF h3]
  note new = session_flag [THEN conjunct2]
  note d = new [of ?yes ?s _ _ "''https://example.com''", THEN conjunct2, THEN conjunct2,
      THEN conjunct2, THEN conjunct2, THEN conjunct1]
  note e = new [of ?no ?s _ _ "''https://example.com''" _ "''example.com''", THEN conjunct2,
      THEN conjunct2, THEN conjunct2, THEN conjunct2, THEN conjunct2, THEN conjunct2, THEN conjunct1,
      THEN mp, OF nf, THEN conjunct2, THEN conjunct2, THEN conjunct1, THEN mp, OF h4, THEN conjunct2]
  note f = new [of ?no ?s "[]" "[''ls'']", THEN conjunct2, THEN conjunct2, THEN conjunct2,
      THEN conjunct2, THEN conjunct2, THEN conjunct2, THEN conjunct2, THEN mp, OF h3]
  have u: "fst (fst (ReadString CHR ''\<newline>'' [] (os_Stdin ?s))) = ''alice\<newline>''"
    by (simp add: fresh_def)
  have di: "lpassInitialized (snd (Delete ?yes ''https://example.com'' ?s))"
    by (simp add: Delete_after_login)
  have po: "probed_ok ?yes [] (trace (snd (Delete ?yes ''https://example.com'' ?s)))"
    using d di nf by (simp add: flag_by_probe_def fresh_def)
  have 1: "checkInitialized ?yes logged_in = (None, logged_in)"
    and 2: "lpassInitialized (snd (List ?yes logged_in))"
    using a by simp_all
  have 3: "fst (checkInitialized ?yes ?s) = None" using b by simp
  have 4: "fst (checkInitialized ?no ?s)
       = Some ''Failed to log into `lpass`; try running `lpass login alice\<newline>` yourself.''"
    and 5: "\<not> lpassInitialized (snd (checkInitialized ?no ?s))"
    using c unfolding u by simp_all
  have 6: "fst (runLastPass ?no [] [''ls''] ?s)
       = ([], Some ''Failed to log into `lpass`; try running `lpass login alice\<newline>` yourself.'')"
    using f [THEN conjunct1] unfolding u by simp
  have 7: "\<not> lpassInitialized (snd (runLastPass ?no [] [''ls''] ?s))"
    by (rule f [THEN conjunct2, THEN conjunct1])
  show ?thesis
    using 1 2 h2 3 4 5 nf di d po e 6 7 by (intro conjI) simp_all
qed

lemma List_loop_first_failure:
  assumes "lpassInitialized s" "i < length (concat (map show_cmds es))"
    and "run_err (replay env (trace s) (concat (map show_cmds es)) ! i) \<noteq> None"
    and "\<forall>j<i. run_err (replay env (trace s) (concat (map show_cmds es)) ! j) = None"
  shows "List_loop env es resp s =
    ((None, runner_error (replay env (trace s) (concat (map show_cmds es)) ! i)),
     s\<lparr>trace := trace s @ take (Suc i) (concat (map show_cmds es))\<rparr>)"
  using assms
proof (induction es arbitrary: resp s i)
  case Nil
  then show ?case by simp
next
  case (Cons e es)
  let ?c1 = "Invocation (Some []) [''show'', ''--url'', e]"
  let ?c2 = "Invocation (Some []) [''show'', ''--user'', e]"
  let ?o1 = "lpass env (trace s) ?c1"
  let ?o2 = "lpass env (trace s @ [?c1]) ?c2"
  let ?s2 = "s\<lparr>trace := trace s @ [?c1, ?c2]\<rparr>"
  let ?P = "concat (map show_cmds es)"
  let ?R = "replay env (trace ?s2) ?P"
  note step = List_loop_Cons [OF Cons.prems(1), of env e es resp]
  have cc: "concat (map show_cmds (e # es)) = ?c1 # ?c2 # ?P"
    by (simp add: show_cmds_def)
  have rp: "replay env (trace s) (?c1 # ?c2 # ?P) = ?o1 # ?o2 # ?R"
    by simp
  note fails = Cons.prems(3) [unfolded cc rp]
  note before = Cons.prems(4) [unfolded cc rp]
  show ?case
  proof (cases i)
    case 0
    have f1: "run_err ?o1 \<noteq> None" using fails 0 by simp
    have "List_loop env (e # es) resp s = ((None, runner_error ?o1), s\<lparr>trace := trace s @ [?c1]\<rparr>)"
      by (subst step) (simp add: Let_def f1)
    then show ?thesis unfolding cc rp 0 by simp
  next
    case (Suc k)
    have o1: "run_err ?o1 = None" using before Suc by auto
    show ?thesis
    proof (cases k)
      case 0
      have f2: "run_err ?o2 \<noteq> None" using fails Suc 0 by simp
      have "List_loop env (e # es) resp s = ((None, runner_error ?o2), ?s2)"
        by (subst step) (simp add: Let_def o1 f2)
      then show ?thesis unfolding cc rp Suc 0 by simp
    next
      case k: (Suc n)
      have o2: "run_err ?o2 = None"
        using before [rule_format, of 1] Suc k by simp
      have eq: "List_loop env (e # es) resp s
          = List_loop env es (resp(runner_output ?o1 \<mapsto> runner_output ?o2)) ?s2"
        by (subst step) (simp add: Let_def o1 o2)
      have f2: "lpassInitialized ?s2" using Cons.prems(1) by simp
      have n1: "n < length ?P" using Cons.prems(2) Suc k unfolding cc by simp
      have n2: "run_err (?R ! n) \<noteq> None" using fails Suc k by simp
      have n3: "\<forall>j<n. run_err (?R ! j) = None"
      proof (intro allI impI)
        fix j assume "j < n"
        then have "Suc (Suc j) < i" using Suc k by simp
        from before [rule_format, OF this] show "run_err (?R ! j) = None" by simp
      qed
      note IH = Cons.IH [OF f2 n1 n2 n3, of "resp(runner_output ?o1 \<mapsto> runner_output ?o2)"]
      show ?thesis
        unfolding eq IH cc rp Suc k by simp
    qed
  qed
qed

lemma first_failure_exists:
  assumes "\<exists>r \<in> set rs. run_err r \<noteq> None"
  shows "\<exists>i<length rs. run_err (rs ! i) \<noteq> None \<and> (\<forall>j<i. run_err (rs ! j) = None)"
proof -
  let ?Q = "\<lambda>n. n < length rs \<and> run_err (rs ! n) \<noteq> None"
  from assms obtain r where "r \<in> set rs" "run_err r \<noteq> None" by blast
  then obtain n where "n < length rs" "rs ! n = r"
    by (metis in_set_conv_nth)
  with \<open>run_err r \<noteq> None\<close> have "?Q n" by simp
  then have "\<exists>n. ?Q n" ..
  then have "\<exists>i. ?Q i \<and> (\<forall>m<i. \<not> ?Q m)"
    by (subst (asm) exists_least_iff)
  then obtain i where i: "?Q i" and least: "\<forall>m<i. \<not> ?Q m" by blast
  have "run_err (rs ! j) = None" if "j < i" for j
  proof -
    have "j < length rs" using that i by simp
    then show ?thesis using least that by blast
  qed
  then show ?thesis using i by blast
qed

lemma List_loop_runs_first:
  assumes "lpassInitialized s"
  shows "\<exists>rest. trace (snd (List_loop env (e # es) resp s))
           = trace s @ Invocation (Some []) [''show'', ''--url'', e] # rest"
proof -
  let ?c1 = "Invocation (Some []) [''show'', ''--url'', e]"
  let ?c2 = "Invocation (Some []) [''show'', ''--user'', e]"
  let ?o1 = "lpass env (trace s) ?c1"
  let ?o2 = "lpass env (trace s @ [?c1]) ?c2"
  let ?s2 = "s\<lparr>trace := trace s @ [?c1, ?c2]\<rparr>"
  note step = List_loop_Cons [OF assms, of env e es resp]
  consider (url) "run_err ?o1 \<noteq> None"
    | (user) "run_err ?o1 = None" "run_err ?o2 \<noteq> None"
    | (both) "run_err ?o1 = None" "run_err ?o2 = None"
    by blast
  then show ?thesis
  proof cases
    case url
    have "List_loop env (e # es) resp s = ((None, runner_error ?o1), s\<lparr>trace := trace s @ [?c1]\<rparr>)"
      by (subst step) (simp add: Let_def url)
    then show ?thesis by simp
  next
    case user
    have "List_loop env (e # es) resp s = ((None, runner_error ?o2), ?s2)"
      by (subst step) (simp add: Let_def user)
    then show ?thesis by simp
  next
    case both
    have eq: "List_loop env (e # es) resp s
        = List_loop env es (resp(runner_output ?o1 \<mapsto> runner_output ?o2)) ?s2"
      by (subst step) (simp add: Let_def both)
    have "lpassInitialized ?s2" using assms by simp
    from List_loop_fail_fast [OF this, of env es "resp(runner_output ?o1 \<mapsto> runner_output ?o2)"]
    obtain new where
      "trace (snd (List_loop env es (resp(runner_output ?o1 \<mapsto> runner_output ?o2)) ?s2))
         = trace ?s2 @ new"
      by blast
    then show ?thesis unfolding eq by simp
  qed
qed

text \<open>
  C7. After a listing that succeeded, if the first of the per-entry \<open>show\<close>
  invocations on which the tool fails is the one at position \<open>i\<close>, then \<open>List\<close> makes
  the invocations up to that one and no other, and returns nil and the error of that
  invocation; so if the tool fails on any of them, \<open>List\<close> returns nil and the
  error of a failing one. Whenever \<open>List\<close> returns an error the mapping it returns
  is nil, and every invocation it has made after the listing is one of the per-entry
  \<open>show\<close> invocations, in order.
\<close>

theorem List_fail_fast:
  "((snd (fst (List env s)) \<noteq> None \<longrightarrow> fst (fst (List env s)) = None)
   \<and> (runLastPass env [] [''ls'', ''--format'', ''%ai'', LASTPASS_FOLDER] s = ((output, None), s1) \<longrightarrow>
        (\<exists>new. trace (snd (List env s)) = trace s1 @ new
           \<and> prefix new (concat (map show_cmds (Split output ''\<newline>'')))
           \<and> (\<forall>r \<in> set (replay env (trace s1) new). run_err r \<noteq> None \<longrightarrow>
                 fst (List env s) = (None, runner_error r)))))
   \<and> (runLastPass env [] [''ls'', ''--format'', ''%ai'', LASTPASS_FOLDER] s = ((output, None), s1)
        \<and> i < length (concat (map show_cmds (Split output ''\<newline>'')))
        \<and> run_err (replay env (trace s1) (concat (map show_cmds (Split output ''\<newline>''))) ! i) \<noteq> None
        \<and> (\<forall>j<i. run_err (replay env (trace s1)
                      (concat (map show_cmds (Split output ''\<newline>''))) ! j) = None) \<longrightarrow>
        List env s =
          ((None, runner_error (replay env (trace s1)
                     (concat (map show_cmds (Split output ''\<newline>''))) ! i)),
           s1\<lparr>trace := trace s1 @ take (Suc i) (concat (map show_cmds (Split output ''\<newline>'')))\<rparr>))
   \<and> (runLastPass env [] [''ls'', ''--format'', ''%ai'', LASTPASS_FOLDER] s = ((output, None), s1)
        \<and> (\<exists>r \<in> set (replay env (trace s1) (concat (map show_cmds (Split output ''\<newline>'')))).
              run_err r \<noteq> None) \<longrightarrow>
        fst (fst (List env s)) = None
        \<and> (\<exists>r \<in> set (replay env (trace s1) (concat (map show_cmds (Split output ''\<newline>'')))).
              run_err r \<noteq> None \<and> snd (fst (List env s)) = runner_error r))"
proof -
  let ?P = "concat (map show_cmds (Split output ''\<newline>''))"
  have old: "(snd (fst (List env s)) \<noteq> None \<longrightarrow> fst (fst (List env s)) = None)
   \<and> (runLastPass env [] [''ls'', ''--format'', ''%ai'', LASTPASS_FOLDER] s = ((output, None), s1) \<longrightarrow>
        (\<exists>new. trace (snd (List env s)) = trace s1 @ new
           \<and> prefix new (concat (map show_cmds (Split output ''\<newline>'')))
           \<and> (\<forall>r \<in> set (replay env (trace s1) new). run_err r \<noteq> None \<longrightarrow>
                 fst (List env s) = (None, runner_error r))))"
    by (rule List_made_shows)
  have first: "List env s = ((None, runner_error (replay env (trace s1) ?P ! i)),
                 s1\<lparr>trace := trace s1 @ take (Suc i) ?P\<rparr>)"
    if ls: "runLastPass env [] [''ls'', ''--format'', ''%ai'', LASTPASS_FOLDER] s = ((output, None), s1)"
      and i: "i < length ?P" "run_err (replay env (trace s1) ?P ! i) \<noteq> None"
        "\<forall>j<i. run_err (replay env (trace s1) ?P ! j) = None" for i
  proof -
    have f: "lpassInitialized s1" using ls by (rule runLastPass_ok_flag)
    show ?thesis
      unfolding List_as_loop [OF ls] using f i by (rule List_loop_first_failure)
  qed
  have one: "runLastPass env [] [''ls'', ''--format'', ''%ai'', LASTPASS_FOLDER] s = ((output, None), s1)
        \<and> i < length ?P \<and> run_err (replay env (trace s1) ?P ! i) \<noteq> None
        \<and> (\<forall>j<i. run_err (replay env (trace s1) ?P ! j) = None) \<longrightarrow>
        List env s = ((None, runner_error (replay env (trace s1) ?P ! i)),
                      s1\<lparr>trace := trace s1 @ take (Suc i) ?P\<rparr>)"
    using first by blast
  have any: "runLastPass env [] [''ls'', ''--format'', ''%ai'', LASTPASS_FOLDER] s = ((output, None), s1)
        \<and> (\<exists>r \<in> set (replay env (trace s1) ?P). run_err r \<noteq> None) \<longrightarrow>
        fst (fst (List env s)) = None
        \<and> (\<exists>r \<in> set (replay env (trace s1) ?P). run_err r \<noteq> None \<and> snd (fst (List env s)) = runner_error r)"
  proof
    assume a: "runLastPass env [] [''ls'', ''--format'', ''%ai'', LASTPASS_FOLDER] s = ((output, None), s1)
        \<and> (\<exists>r \<in> set (replay env (trace s1) ?P). run_err r \<noteq> None)"
    then obtain k where k: "k < length (replay env (trace s1) ?P)"
      "run_err (replay env (trace s1) ?P ! k) \<noteq> None"
      "\<forall>j<k. run_err (replay env (trace s1) ?P ! j) = None"
      using first_failure_exists [of "replay env (trace s1) ?P"] by blast
    have kl: "k < length ?P"
      using k(1) by (simp add: replay_length)
    note L = first [OF a [THEN conjunct1] kl k(2) k(3)]
    have "replay env (trace s1) ?P ! k \<in> set (replay env (trace s1) ?P)"
      using k(1) by simp
    then show "fst (fst (List env s)) = None
        \<and> (\<exists>r \<in> set (replay env (trace s1) ?P). run_err r \<noteq> None \<and> snd (fst (List env s)) = runner_error r)"
      unfolding L using k(2) by auto
  qed
  show ?thesis
    by (intro old one any conjI)
qed

theorem List_fail_fast_witness:
  "runLastPass (sample_env (table_lpass broken_entry_store)) []
      [''ls'', ''--format'', ''%ai'', LASTPASS_FOLDER] logged_in
     = ((''11\<newline>12'', None),
        logged_in\<lparr>trace := [Invocation (Some []) [''ls'', ''--format'', ''%ai'', ''Docker Credentials'']]\<rparr>)
   \<and> replay (sample_env (table_lpass broken_entry_store))
        [Invocation (Some []) [''ls'', ''--format'', ''%ai'', ''Docker Credentials'']]
        (concat (map show_cmds (Split ''11\<newline>12'' ''\<newline>'')))
     = [ok ''https://x.test\<newline>'', ok ''alice\<newline>'', ok ''https://y.test\<newline>'',
        failure ''Error: Could not find specified account(s).\<newline>'']
   \<and> List (sample_env (table_lpass broken_entry_store)) logged_in
     = ((None, Some ''exit status 1: Error: Could not find specified account(s).\<newline>''),
        logged_in\<lparr>trace :=
          [Invocation (Some []) [''ls'', ''--format'', ''%ai'', ''Docker Credentials''],
           Invocation (Some []) [''show'', ''--url'', ''11''],
           Invocation (Some []) [''show'', ''--user'', ''11''],
           Invocation (Some []) [''show'', ''--url'', ''12''],
           Invocation (Some []) [''show'', ''--user'', ''12'']]\<rparr>)
   \<and> fst (fst (List (sample_env (table_lpass broken_entry_store)) logged_in)) = None"
proof -
  let ?E = "sample_env (table_lpass broken_entry_store)"
  let ?ls = "Invocation (Some []) [''ls'', ''--format'', ''%ai'', ''Docker Credentials'']"
  let ?s1 = "logged_in\<lparr>trace := [?ls]\<rparr>"
  let ?P = "concat (map show_cmds (Split ''11\<newline>12'' ''\<newline>''))"
  have ls: "runLastPass ?E [] [''ls'', ''--format'', ''%ai'', LASTPASS_FOLDER] logged_in
       = ((''11\<newline>12'', None), ?s1)"
    by (simp add: runLastPass_def checkInitialized_def runLastPassHelper_def cmd_Run_def
        logged_in_def sample_env_sel table_lpass_def broken_entry_store_def ok_def
        TrimRight_def LASTPASS_FOLDER_def)
  have pl: "?P = [Invocation (Some []) [''show'', ''--url'', ''11''],
                  Invocation (Some []) [''show'', ''--user'', ''11''],
                  Invocation (Some []) [''show'', ''--url'', ''12''],
                  Invocation (Some []) [''show'', ''--user'', ''12'']]"
    by (simp add: Split_def show_cmds_def)
  have tr: "trace ?s1 = [?ls]" by simp
  have rp: "replay ?E [?ls] ?P
      = [ok ''https://x.test\<newline>'', ok ''alice\<newline>'', ok ''https://y.test\<newline>'',
         failure ''Error: Could not find specified account(s).\<newline>'']"
    unfolding pl by (simp add: sample_env_sel table_lpass_def broken_entry_store_def)
  have h: "runLastPass ?E [] [''ls'', ''--format'', ''%ai'', LASTPASS_FOLDER] logged_in
             = ((''11\<newline>12'', None), ?s1)
        \<and> 3 < length ?P
        \<and> run_err (replay ?E (trace ?s1) ?P ! 3) \<noteq> None
        \<and> (\<forall>j<3. run_err (replay ?E (trace ?s1) ?P ! j) = None)"
    unfolding tr rp
    by (simp add: ls pl ok_def failure_def numeral_3_eq_3 less_Suc_eq)
  note L = List_fail_fast [of ?E logged_in "''11\<newline>12''" ?s1 3,
      THEN conjunct2, THEN conjunct1, THEN mp, OF h]
  have e: "runner_error (replay ?E (trace ?s1) ?P ! 3)
      = Some ''exit status 1: Error: Could not find specified account(s).\<newline>''"
    unfolding tr rp by (simp add: runner_error_def failure_def numeral_3_eq_3)
  have tk: "take (Suc 3) ?P = ?P"
    unfolding pl by simp
  have full: "List ?E logged_in
     = ((None, Some ''exit status 1: Error: Could not find specified account(s).\<newline>''),
        logged_in\<lparr>trace := ?ls # ?P\<rparr>)"
    using L unfolding e tk by simp
  have nil: "fst (fst (List ?E logged_in)) = None"
    unfolding full by simp
  show ?thesis
    using ls rp full nil unfolding pl by (intro conjI)
qed

text \<open>
  A listing of two identifiers whose first \<open>show\<close> fails: the output has two segments
  and the loop ends in its first iteration. (Counterexample to C10 as stated.)
\<close>

theorem List_stops_at_failing_entry:
  "runLastPass (sample_env (table_lpass unreadable_store)) []
      [''ls'', ''--format'', ''%ai'', LASTPASS_FOLDER] logged_in
     = ((''11\<newline>12'', None),
        logged_in\<lparr>trace := [Invocation (Some []) [''ls'', ''--format'', ''%ai'', ''Docker Credentials'']]\<rparr>)
   \<and> Split ''11\<newline>12'' ''\<newline>'' = [''11'', ''12'']
   \<and> List (sample_env (table_lpass unreadable_store)) logged_in
     = ((None, Some ''exit status 1: Error: Could not find specified account(s).\<newline>''),
        logged_in\<lparr>trace :=
          [Invocation (Some []) [''ls'', ''--format'', ''%ai'', ''Docker Credentials''],
           Invocation (Some []) [''show'', ''--url'', ''11'']]\<rparr>)"
  by (simp add: List_def runLastPass_def checkInitialized_def runLastPassHelper_def cmd_Run_def
      logged_in_def sample_env_sel table_lpass_def unreadable_store_def ok_def failure_def
      TrimRight_def Split_def LASTPASS_FOLDER_def)

text \<open>
  C10, amended. The empty output splits into one empty identifier. So after a listing
  that returned the empty string, \<open>List\<close> runs \<open>show --url\<close> on the empty identifier
  and does not return the empty mapping with no error. The output has one more segment
  than it has newlines. After a listing that succeeded \<open>List\<close> always starts the
  first iteration and never makes more than the two \<open>show\<close> invocations for each
  segment; it makes exactly those when it returns no error.
\<close>

theorem List_empty_output:
  "(Split [] ''\<newline>'' = [[]]
   \<and> length (Split output ''\<newline>'') = Suc (length (filter (\<lambda>c. c = CHR ''\<newline>'') output))
   \<and> (runLastPass env [] [''ls'', ''--format'', ''%ai'', LASTPASS_FOLDER] s = (([], None), s1) \<longrightarrow>
        fst (List env s) \<noteq> (Some Map.empty, None)
        \<and> (\<exists>rest. trace (snd (List env s))
                     = trace s1 @ Invocation (Some []) [''show'', ''--url'', []] # rest))
   \<and> (runLastPass env [] [''ls'', ''--format'', ''%ai'', LASTPASS_FOLDER] s = ((output, None), s1)
        \<and> snd (fst (List env s)) = None \<longrightarrow>
        trace (snd (List env s)) = trace s1 @ concat (map show_cmds (Split output ''\<newline>''))
        \<and> length (trace (snd (List env s))) = length (trace s1) + 2 * length (Split output ''\<newline>'')))
   \<and> (runLastPass env [] [''ls'', ''--format'', ''%ai'', LASTPASS_FOLDER] s = ((output, None), s1) \<longrightarrow>
        (\<exists>new. trace (snd (List env s)) = trace s1 @ new
           \<and> new \<noteq> []
           \<and> prefix new (concat (map show_cmds (Split output ''\<newline>'')))
           \<and> length new \<le> 2 * length (Split output ''\<newline>'')))"
proof -
  have old: "Split [] ''\<newline>'' = [[]]
   \<and> length (Split output ''\<newline>'') = Suc (length (filter (\<lambda>c. c = CHR ''\<newline>'') output))
   \<and> (runLastPass env [] [''ls'', ''--format'', ''%ai'', LASTPASS_FOLDER] s = (([], None), s1) \<longrightarrow>
        fst (List env s) \<noteq> (Some Map.empty, None)
        \<and> (\<exists>rest. trace (snd (List env s))
                     = trace s1 @ Invocation (Some []) [''show'', ''--url'', []] # rest))
   \<and> (runLastPass env [] [''ls'', ''--format'', ''%ai'', LASTPASS_FOLDER] s = ((output, None), s1)
        \<and> snd (fst (List env s)) = None \<longrightarrow>
        trace (snd (List env s)) = trace s1 @ concat (map show_cmds (Split output ''\<newline>''))
        \<and> length (trace (snd (List env s))) = length (trace s1) + 2 * length (Split output ''\<newline>''))"
    by (rule List_segments)
  have new: "runLastPass env [] [''ls'', ''--format'', ''%ai'', LASTPASS_FOLDER] s = ((output, None), s1) \<longrightarrow>
        (\<exists>new. trace (snd (List env s)) = trace s1 @ new
           \<and> new \<noteq> []
           \<and> prefix new (concat (map show_cmds (Split output ''\<newline>'')))
           \<and> length new \<le> 2 * length (Split output ''\<newline>''))"
  proof
    assume ls: "runLastPass env [] [''ls'', ''--format'', ''%ai'', LASTPASS_FOLDER] s = ((output, None), s1)"
    have f: "lpassInitialized s1" using ls by (rule runLastPass_ok_flag)
    let ?es = "Split output ''\<newline>''"
    obtain new where new: "trace (snd (List_loop env ?es Map.empty s1)) = trace s1 @ new"
      "prefix new (concat (map show_cmds ?es))"
      using List_loop_fail_fast [OF f, of env ?es Map.empty] by blast
    have "length ?es = Suc (length (filter (\<lambda>c. c = CHR ''\<newline>'') output))"
      by (rule Split_length)
    then obtain e es where es: "?es = e # es" by (cases ?es) simp_all
    obtain rest where
      "trace (snd (List_loop env ?es Map.empty s1))
         = trace s1 @ Invocation (Some []) [''show'', ''--url'', e] # rest"
      unfolding es using List_loop_runs_first [OF f] by blast
    then have ne: "new \<noteq> []" using new(1) by auto
    have "length (concat (map show_cmds xs)) = 2 * length xs" for xs
      by (induction xs) (simp_all add: show_cmds_def)
    then have le: "length new \<le> 2 * length ?es"
      using prefix_length_le [OF new(2)] by simp
    show "\<exists>new. trace (snd (List env s)) = trace s1 @ new
           \<and> new \<noteq> []
           \<and> prefix new (concat (map show_cmds (Split output ''\<newline>'')))
           \<and> length new \<le> 2 * length (Split output ''\<newline>'')"
      unfolding List_as_loop [OF ls] using new ne le by blast
  qed
  show ?thesis
    by (intro old new conjI)
qed

theorem List_empty_output_witness:
  "(runLastPass (sample_env (table_lpass empty_store)) []
      [''ls'', ''--format'', ''%ai'', LASTPASS_FOLDER] logged_in
     = (([], None),
        logged_in\<lparr>trace := [Invocation (Some []) [''ls'', ''--format'', ''%ai'', ''Docker Credentials'']]\<rparr>)
   \<and> fst (List (sample_env (table_lpass empty_store)) logged_in) \<noteq> (Some Map.empty, None)
   \<and> trace (snd (List (sample_env (table_lpass empty_store)) logged_in))
       = [Invocation (Some []) [''ls'', ''--format'', ''%ai'', ''Docker Credentials''],
          Invocation (Some []) [''show'', ''--url'', []]]
   \<and> snd (fst (List (sample_env (table_lpass blank_line_store)) logged_in)) = None
   \<and> length (Split ''\<newline>11'' ''\<newline>'') = 2
   \<and> length (trace (snd (List (sample_env (table_lpass blank_line_store)) logged_in))) = 1 + 2 * 2)
   \<and> (\<exists>new. trace (snd (List (sample_env (table_lpass empty_store)) logged_in))
               = trace (logged_in\<lparr>trace :=
                   [Invocation (Some []) [''ls'', ''--format'', ''%ai'', ''Docker Credentials'']]\<rparr>) @ new
          \<and> new \<noteq> []
          \<and> prefix new (concat (map show_cmds (Split [] ''\<newline>'')))
          \<and> length new \<le> 2 * length (Split [] ''\<newline>''))"
proof -
  let ?E = "sample_env (table_lpass empty_store)" and ?B = "sample_env (table_lpass blank_line_store)"
  let ?ls = "Invocation (Some []) [''ls'', ''--format'', ''%ai'', ''Docker Credentials'']"
  have ls: "runLastPass ?E [] [''ls'', ''--format'', ''%ai'', LASTPASS_FOLDER] logged_in
       = (([], None), logged_in\<lparr>trace := [?ls]\<rparr>)"
    by (simp add: runLastPass_def checkInitialized_def runLastPassHelper_def cmd_Run_def
        logged_in_def sample_env_sel table_lpass_def empty_store_def ok_def
        TrimRight_def LASTPASS_FOLDER_def)
  have "runLastPass ?B [] [''ls'', ''--format'', ''%ai'', LASTPASS_FOLDER] logged_in
       = ((''\<newline>11'', None), logged_in\<lparr>trace := [?ls]\<rparr>)"
    by (simp add: runLastPass_def checkInitialized_def runLastPassHelper_def cmd_Run_def
        logged_in_def sample_env_sel table_lpass_def blank_line_store_def ok_def
        TrimRight_def LASTPASS_FOLDER_def)
  moreover have "snd (fst (List ?B logged_in)) = None"
    by (simp add: List_blank_line)
  ultimately have lsB: "runLastPass ?B [] [''ls'', ''--format'', ''%ai'', LASTPASS_FOLDER] logged_in
       = ((''\<newline>11'', None), logged_in\<lparr>trace := [?ls]\<rparr>)
       \<and> snd (fst (List ?B logged_in)) = None"
    by (rule conjI)
  note n = List_empty_output [THEN conjunct1, of "''\<newline>11''", THEN conjunct2, THEN conjunct1]
  note a = List_empty_output [THEN conjunct1, of _ ?E logged_in, THEN conjunct2, THEN conjunct2, THEN conjunct1,
      THEN mp, OF ls, THEN conjunct1]
  note b = List_empty_output [THEN conjunct1, of "''\<newline>11''" ?B logged_in, THEN conjunct2, THEN conjunct2,
      THEN conjunct2, THEN mp, OF lsB, THEN conjunct2]
  have tr: "length (trace (logged_in\<lparr>trace := [?ls]\<rparr>)) = 1" by simp
  note c = List_empty_output [THEN conjunct2, of ?E logged_in "[]" "logged_in\<lparr>trace := [?ls]\<rparr>",
      THEN mp, OF ls]
  have w: "runLastPass ?E [] [''ls'', ''--format'', ''%ai'', LASTPASS_FOLDER] logged_in
       = (([], None), logged_in\<lparr>trace := [?ls]\<rparr>)
   \<and> fst (List ?E logged_in) \<noteq> (Some Map.empty, None)
   \<and> trace (snd (List ?E logged_in)) = [?ls, Invocation (Some []) [''show'', ''--url'', []]]
   \<and> snd (fst (List ?B logged_in)) = None
   \<and> length (Split ''\<newline>11'' ''\<newline>'') = 2
   \<and> length (trace (snd (List ?B logged_in))) = 1 + 2 * 2"
    using ls a b n lsB unfolding tr by (simp add: List_empty_store)
  show ?thesis
    by (rule conjI [OF w c])
qed

end
